theory Spec2Isabelle
  imports Main "HOL-Library.Multiset"
begin

section \<open>JavaScript values\<close>

text \<open>
  The values that travel between the CRM, the handlers of \<^verbatim>\<open>index.js\<close> and the SQLite
  store. A JavaScript number is modelled by an integer (ids, categories, counts and whole
  prices); fractional numbers and \<^verbatim>\<open>NaN\<close> as a stored value are outside the model.
  An object is the list of its own properties in insertion order, which is the order
  \<^verbatim>\<open>Object.keys\<close> and \<^verbatim>\<open>Object.values\<close> report; a key occurs once. A property can
  hold an object again. Arrays are the lists of the model and are no values of this
  type.
\<close>

datatype jsval =
  JUndefined | JNull | JBool bool | JNum int | JStr string | JObj "(string \<times> jsval) list"

type_synonym jsobj = "(string \<times> jsval) list"

definition Object_keys :: "jsobj \<Rightarrow> string list" where
  "Object_keys obj = map fst obj"

definition Object_values :: "jsobj \<Rightarrow> jsval list" where
  "Object_values obj = map snd obj"

text \<open>\<^verbatim>\<open>obj[key]\<close>: a property that is not there reads as \<^verbatim>\<open>undefined\<close>.\<close>

definition get_prop :: "jsobj \<Rightarrow> string \<Rightarrow> jsval" where
  "get_prop obj key = (case map_of obj key of None \<Rightarrow> JUndefined | Some v \<Rightarrow> v)"

text \<open>Truthiness, as \<^verbatim>\<open>!x\<close>, \<^verbatim>\<open>x || y\<close> and \<^verbatim>\<open>if (x)\<close> test it.\<close>

fun truthy :: "jsval \<Rightarrow> bool" where
  "truthy JUndefined = False"
| "truthy JNull = False"
| "truthy (JBool b) = b"
| "truthy (JNum n) = (n \<noteq> 0)"
| "truthy (JStr s) = (s \<noteq> [])"
| "truthy (JObj obj) = True"

text \<open>Exceptions: what a \<^verbatim>\<open>throw\<close>, a rejected promise or a failed property access raise.\<close>

datatype exn = TypeError | Error string

section \<open>The remote deal client (\<^verbatim>\<open>services/deals.js\<close>)\<close>

text \<open>
  \<^verbatim>\<open>this.bx\<close> is the connection made by \<^verbatim>\<open>Bitrix(link)\<close> of the package
  \<^verbatim>\<open>@2bad/bitrix\<close>. Its three calls are the boundary to the CRM: each either rejects
  (\<open>Inl\<close>) or resolves with a payload. A payload that makes the code reading it throw
  (a \<^verbatim>\<open>null\<close> answer, a response without \<^verbatim>\<open>result\<close>) has the effect of a
  rejection, control passes to the same \<^verbatim>\<open>catch\<close>, and is represented by
  \<open>Inl TypeError\<close>.

  \<^verbatim>\<open>bx.deals.get(id)\<close> resolves with an object, \<^verbatim>\<open>bx.deals.list\<close> with the records
  in \<^verbatim>\<open>result\<close> and their number in \<^verbatim>\<open>total\<close>, and
  \<^verbatim>\<open>bx.call("crm.deal.productrows.get", ...)\<close> with the product rows in
  \<^verbatim>\<open>result\<close>.
\<close>

record list_response =
  result :: "jsobj list"
  total :: int

record bitrix =
  deals_get :: "jsval \<Rightarrow> exn + jsobj"
  deals_list :: "jsobj \<Rightarrow> int \<Rightarrow> exn + list_response"
  call_productrows_get :: "jsval \<Rightarrow> exn + jsobj list"

text \<open>
  The object that \<^verbatim>\<open>bx.deals.get\<close> of the package resolves with is the answer of the
  REST method \<^verbatim>\<open>crm.deal.get\<close> as it arrives: an envelope with the deal under
  \<^verbatim>\<open>result\<close> and the timings of the call under \<^verbatim>\<open>time\<close>. The fields of the deal
  are properties of \<^verbatim>\<open>result\<close>, not of the envelope.
\<close>

definition rest_envelope :: "jsobj \<Rightarrow> jsobj \<Rightarrow> jsobj" where
  "rest_envelope deal timings = [(''result'', JObj deal), (''time'', JObj timings)]"

text \<open>
  What the promise returned by an operation settles to. \<open>Resolved None\<close> is
  \<^verbatim>\<open>resolve(null)\<close>.
\<close>

datatype 'a promise = Resolved 'a | Rejected exn

definition pageSize :: int where
  "pageSize = 50"

definition getDealById :: "bitrix \<Rightarrow> jsval \<Rightarrow> jsobj option promise" where
  "getDealById bx id' =
     (case deals_get bx id' of
        Inr deal \<Rightarrow>
          Resolved (Some
            [(''id'', get_prop deal ''ID''),
             (''title'', get_prop deal ''TITLE''),
             (''category_id'', get_prop deal ''CATEGORY_ID''),
             (''price_type'', get_prop deal ''UF_CRM_1710140074001''),
             (''date_create'', get_prop deal ''DATE_CREATE'')])
      | Inl error \<Rightarrow> Resolved None)"

text \<open>
  The \<^verbatim>\<open>do ... while\<close> loop of \<^verbatim>\<open>getDealsByFilter\<close>, with the offsets requested so
  far kept beside \<^verbatim>\<open>allResults\<close>. The loop runs as long as the server keeps reporting
  a total beyond the next offset, so it is a partial function: \<open>None\<close> is the loop
  that never leaves. \<open>Inl\<close> is an exception on its way to the \<^verbatim>\<open>catch\<close>.
\<close>

partial_function (option) list_loop ::
  "bitrix \<Rightarrow> jsobj \<Rightarrow> int \<Rightarrow> int list \<Rightarrow> jsobj list \<Rightarrow> (int list \<times> (exn + jsobj list)) option"
where
  "list_loop bx filter' start requests allResults =
     (case deals_list bx filter' start of
        Inl error \<Rightarrow> Some (requests @ [start], Inl error)
      | Inr res \<Rightarrow>
          if total res < pageSize
          then Some (requests @ [start], Inr (allResults @ result res))
          else if start + pageSize < total res
          then list_loop bx filter' (start + pageSize) (requests @ [start]) (allResults @ result res)
          else Some (requests @ [start], Inr (allResults @ result res)))"

text \<open>
  \<^verbatim>\<open>getDealsByFilter\<close>: the offsets it requested and what its promise settles to, or
  \<open>None\<close> when the promise stays pending for ever.
\<close>

definition getDealsByFilter ::
  "bitrix \<Rightarrow> jsobj \<Rightarrow> (int list \<times> jsobj list option promise) option" where
  "getDealsByFilter bx filter' =
     (case list_loop bx filter' 0 [] [] of
        None \<Rightarrow> None
      | Some (requests, Inr allResults) \<Rightarrow> Some (requests, Resolved (Some allResults))
      | Some (requests, Inl error) \<Rightarrow> Some (requests, Resolved None))"

definition getDealProductRows :: "bitrix \<Rightarrow> jsval \<Rightarrow> jsobj list option promise" where
  "getDealProductRows bx id' =
     (case call_productrows_get bx id' of
        Inr res_result \<Rightarrow>
          Resolved (Some (map (\<lambda>productrow.
            [(''PRODUCT_ID'', get_prop productrow ''PRODUCT_ID''),
             (''PRODUCT_NAME'', get_prop productrow ''PRODUCT_NAME''),
             (''PRICE_BRUTTO'', get_prop productrow ''PRICE_BRUTTO''),
             (''DISCOUNT_SUM'', get_prop productrow ''DISCOUNT_SUM'')]) res_result))
      | Inl error \<Rightarrow> Resolved None)"

text \<open>
  Two readings of the answers, used to say what the loop does: the records that arrive
  in answer to the request at an offset (none when it is rejected), and the test that
  sends the loop into another turn after that request.
\<close>

definition page_received :: "bitrix \<Rightarrow> jsobj \<Rightarrow> int \<Rightarrow> jsobj list" where
  "page_received bx filter' start =
     (case deals_list bx filter' start of Inl error \<Rightarrow> [] | Inr res \<Rightarrow> result res)"

definition loop_goes_on :: "bitrix \<Rightarrow> jsobj \<Rightarrow> int \<Rightarrow> bool" where
  "loop_goes_on bx filter' start =
     (case deals_list bx filter' start of
        Inl error \<Rightarrow> False
      | Inr res \<Rightarrow> \<not> total res < pageSize \<and> start + pageSize < total res)"

section \<open>The SQLite store (\<^verbatim>\<open>services/db.js\<close>)\<close>

subsection \<open>Values, columns and tables\<close>

text \<open>
  The storage classes of SQLite that the modelled values reach: NULL, INTEGER and TEXT.
  SQLite's integers are 64-bit and a longer literal becomes REAL; the model keeps every
  integer.
\<close>

datatype sqlval = SNull | SInt int | SText string

text \<open>The declared column types of \<^verbatim>\<open>createTables\<close>.\<close>

datatype coltype = INTEGER | TEXT | FLOAT | DATE

type_synonym row = "(string \<times> sqlval) list"

text \<open>
  A table: its declaration (columns, the \<^verbatim>\<open>INTEGER PRIMARY KEY\<close> column that names
  the rowid, \<^verbatim>\<open>AUTOINCREMENT\<close>, the \<^verbatim>\<open>UNIQUE\<close> constraints), its rows in rowid
  order, which is the order of \<^verbatim>\<open>SELECT *\<close>, and the largest rowid it ever held
  (what \<^verbatim>\<open>sqlite_sequence\<close> keeps for an \<^verbatim>\<open>AUTOINCREMENT\<close> table). Foreign keys
  are declared but not enforced: the code never turns \<^verbatim>\<open>PRAGMA foreign_keys\<close> on.
\<close>

record table =
  columns :: "(string \<times> coltype) list"
  rowid_column :: string
  autoincrement :: bool
  unique_keys :: "string list list"
  rows :: "row list"
  sequence :: int

text \<open>The database file: the tables it holds, by name.\<close>

type_synonym database = "string \<rightharpoonup> table"

datatype sql_error = NoSuchTable | SyntaxError | NoSuchColumn | DatatypeMismatch

definition cell :: "row \<Rightarrow> string \<Rightarrow> sqlval" where
  "cell r c = (case map_of r c of None \<Rightarrow> SNull | Some v \<Rightarrow> v)"

subsection \<open>Decimal text\<close>

definition digit_of :: "char \<Rightarrow> nat option" where
  "digit_of c = map_of
     [(CHR ''0'', 0), (CHR ''1'', 1), (CHR ''2'', 2), (CHR ''3'', 3), (CHR ''4'', 4),
      (CHR ''5'', 5), (CHR ''6'', 6), (CHR ''7'', 7), (CHR ''8'', 8), (CHR ''9'', 9)] c"

fun digits_value :: "nat \<Rightarrow> string \<Rightarrow> nat option" where
  "digits_value acc [] = Some acc"
| "digits_value acc (c # cs) =
     (case digit_of c of None \<Rightarrow> None | Some d \<Rightarrow> digits_value (10 * acc + d) cs)"

text \<open>An optionally signed, non-empty run of decimal digits.\<close>

definition decimal_integer :: "string \<Rightarrow> int option" where
  "decimal_integer s =
     (case s of
        [] \<Rightarrow> None
      | c # cs \<Rightarrow>
          if c = CHR ''-'' then (if cs = [] then None else map_option (\<lambda>n. - int n) (digits_value 0 cs))
          else if c = CHR ''+'' then (if cs = [] then None else map_option int (digits_value 0 cs))
          else map_option int (digits_value 0 s))"

text \<open>The ASCII blanks: space, tab, line feed, vertical tab, form feed, carriage return.\<close>

definition is_blank :: "char \<Rightarrow> bool" where
  "is_blank c = (c \<in> {CHR '' '', CHR 0x09, CHR 0x0A, CHR 0x0B, CHR 0x0C, CHR 0x0D})"

definition trim :: "string \<Rightarrow> string" where
  "trim s = rev (dropWhile is_blank (rev (dropWhile is_blank s)))"

definition digit_char :: "nat \<Rightarrow> char" where
  "digit_char d = ''0123456789'' ! d"

fun string_of_nat :: "nat \<Rightarrow> string" where
  "string_of_nat n =
     (if n < 10 then [digit_char n] else string_of_nat (n div 10) @ [digit_char (n mod 10)])"

definition string_of_int :: "int \<Rightarrow> string" where
  "string_of_int i = (if i < 0 then CHR ''-'' # string_of_nat (nat (- i)) else string_of_nat (nat i))"

subsection \<open>Binding and column affinity\<close>

text \<open>
  How the \<^verbatim>\<open>sqlite3\<close> driver binds a JavaScript value to a \<^verbatim>\<open>?\<close>: a string as
  TEXT, a number as a number, a boolean as 0 or 1, \<^verbatim>\<open>null\<close> as NULL; \<^verbatim>\<open>undefined\<close>
  leaves the parameter unbound, which SQLite reads as NULL; any other object is bound as
  the text its \<^verbatim>\<open>toString\<close> gives. The driver binds a number as an integer only
  when it is a 32-bit integer, and as a REAL otherwise; the REAL is not modelled, so
  what is stated about stored numbers is stated for 32-bit integers.
\<close>

fun bind_param :: "jsval \<Rightarrow> sqlval" where
  "bind_param JUndefined = SNull"
| "bind_param JNull = SNull"
| "bind_param (JBool b) = SInt (if b then 1 else 0)"
| "bind_param (JNum n) = SInt n"
| "bind_param (JStr s) = SText s"
| "bind_param (JObj obj) = SText ''[object Object]''"

text \<open>
  Column affinity, on the modelled storage classes: a TEXT column stores a number as its
  decimal text; the other three declared types (INTEGER, REAL and NUMERIC affinity)
  store a text that is a decimal integer, blanks around it allowed, as that integer, and
  keep any other text. Texts that SQLite would read as a REAL literal stay text here.
\<close>

fun affinity :: "coltype \<Rightarrow> sqlval \<Rightarrow> sqlval" where
  "affinity ty SNull = SNull"
| "affinity TEXT (SInt n) = SText (string_of_int n)"
| "affinity TEXT (SText s) = SText s"
| "affinity ty (SInt n) = SInt n"
| "affinity ty (SText s) = (case decimal_integer (trim s) of Some n \<Rightarrow> SInt n | None \<Rightarrow> SText s)"

text \<open>What a row read by \<^verbatim>\<open>db.all\<close> holds, as a JavaScript object.\<close>

fun js_of_sql :: "sqlval \<Rightarrow> jsval" where
  "js_of_sql SNull = JNull"
| "js_of_sql (SInt n) = JNum n"
| "js_of_sql (SText s) = JStr s"

definition js_of_row :: "row \<Rightarrow> jsobj" where
  "js_of_row r = map (\<lambda>(c, v). (c, js_of_sql v)) r"

subsection \<open>\<^verbatim>\<open>INSERT OR REPLACE\<close>\<close>

definition rowid_of :: "table \<Rightarrow> row \<Rightarrow> int" where
  "rowid_of t r = (case cell r (rowid_column t) of SInt n \<Rightarrow> n | _ \<Rightarrow> 0)"

text \<open>The largest rowid in the table; 0 stands for the empty table.\<close>

definition max_rowid :: "table \<Rightarrow> int" where
  "max_rowid t =
     (case rows t of
        [] \<Rightarrow> 0
      | r # rs \<Rightarrow> foldr (\<lambda>r' m. max (rowid_of t r') m) rs (rowid_of t r))"

text \<open>
  The rowid given to a row inserted with NULL in the rowid column: one more than the
  largest rowid in the table, 1 in an empty table; with \<^verbatim>\<open>AUTOINCREMENT\<close> one more
  than the largest rowid the table ever held, if that is larger.
\<close>

definition next_rowid :: "table \<Rightarrow> int" where
  "next_rowid t =
     (if autoincrement t then max (sequence t) (max_rowid t) + 1 else max_rowid t + 1)"

text \<open>
  Two rows collide on a \<^verbatim>\<open>UNIQUE\<close> constraint when they agree on all its columns and
  none of these values is NULL: for a uniqueness constraint SQLite takes every NULL to
  be different from every other value, another NULL included.
\<close>

definition key_conflict :: "string list \<Rightarrow> row \<Rightarrow> row \<Rightarrow> bool" where
  "key_conflict key new old = list_all (\<lambda>c. cell new c \<noteq> SNull \<and> cell new c = cell old c) key"

definition conflicts :: "table \<Rightarrow> int \<Rightarrow> row \<Rightarrow> row \<Rightarrow> bool" where
  "conflicts t n new old =
     (rowid_of t old = n \<or> list_ex (\<lambda>key. key_conflict key new old) (unique_keys t))"

fun insert_by_rowid :: "table \<Rightarrow> row \<Rightarrow> row list \<Rightarrow> row list" where
  "insert_by_rowid t new [] = [new]"
| "insert_by_rowid t new (r # rs) =
     (if rowid_of t new < rowid_of t r then new # r # rs else r # insert_by_rowid t new rs)"

text \<open>
  The conflict resolution of \<^verbatim>\<open>OR REPLACE\<close>: the rows that collide with the new one,
  on the rowid or on a \<^verbatim>\<open>UNIQUE\<close> constraint, are deleted, then the new row is stored.
\<close>

definition store_row :: "table \<Rightarrow> int \<Rightarrow> row \<Rightarrow> table" where
  "store_row t n new =
     t\<lparr>rows := insert_by_rowid t new (filter (\<lambda>old. \<not> conflicts t n new old) (rows t)),
       sequence := (if autoincrement t then max (sequence t) n else sequence t)\<rparr>"

text \<open>
  \<^verbatim>\<open>INSERT OR REPLACE INTO tableName (fields) VALUES (?, ...)\<close> run with the bound
  values. The statement does not compile against a missing table, with no column at all
  or with a field that is no column of the table. A column that is not listed is NULL.
  NULL in the rowid column asks for a fresh rowid; a text that affinity could not turn
  into an integer is refused there.
\<close>

definition insert_or_replace ::
  "string \<Rightarrow> string list \<Rightarrow> sqlval list \<Rightarrow> database \<Rightarrow> sql_error + database" where
  "insert_or_replace tableName fields' values db =
     (case db tableName of
        None \<Rightarrow> Inl NoSuchTable
      | Some t \<Rightarrow>
          if fields' = [] then Inl SyntaxError
          else if \<not> list_all (\<lambda>f. f \<in> set (map fst (columns t))) fields' then Inl NoSuchColumn
          else
            let given = zip fields' values;
                new = map (\<lambda>(c, ty). (c, affinity ty (cell given c))) (columns t)
            in case cell new (rowid_column t) of
                 SText s \<Rightarrow> Inl DatatypeMismatch
               | SInt n \<Rightarrow> Inr (db(tableName \<mapsto> store_row t n new))
               | SNull \<Rightarrow>
                   let n = next_rowid t;
                       new' = map (\<lambda>(c, v). (c, if c = rowid_column t then SInt n else v)) new
                   in Inr (db(tableName \<mapsto> store_row t n new')))"

text \<open>
  A statement run from the code: an error is reported by the driver, to the callback
  where the code passes one, which logs it, and the database is as it was. Where the code
  passes no callback (\<^verbatim>\<open>db.prepare\<close> in \<^verbatim>\<open>insertMultipleInTable\<close>) the driver
  raises the error as an event; what an event without listener does to the Node process
  is outside the model, which follows the database only.
\<close>

definition run_insert :: "string \<Rightarrow> string list \<Rightarrow> sqlval list \<Rightarrow> database \<Rightarrow> database" where
  "run_insert tableName fields' values db =
     (case insert_or_replace tableName fields' values db of Inl err \<Rightarrow> db | Inr db' \<Rightarrow> db')"

subsection \<open>The operations of \<^verbatim>\<open>Db\<close>\<close>

definition create_table_if_not_exists :: "string \<Rightarrow> table \<Rightarrow> database \<Rightarrow> database" where
  "create_table_if_not_exists name t db = (case db name of None \<Rightarrow> db(name \<mapsto> t) | Some old \<Rightarrow> db)"

definition deals_table :: table where
  "deals_table =
     \<lparr>columns = [(''id'', INTEGER), (''title'', TEXT), (''category_id'', INTEGER),
                 (''price_type'', INTEGER), (''date_create'', DATE)],
      rowid_column = ''id'', autoincrement = False, unique_keys = [],
      rows = [], sequence = 0\<rparr>"

definition deals_products_table :: table where
  "deals_products_table =
     \<lparr>columns = [(''id'', INTEGER), (''deal_id'', INTEGER), (''product_id'', INTEGER),
                 (''product_name'', TEXT), (''price'', FLOAT), (''discount'', FLOAT)],
      rowid_column = ''id'', autoincrement = True,
      unique_keys = [[''deal_id'', ''product_id'']],
      rows = [], sequence = 0\<rparr>"

definition createTables :: "database \<Rightarrow> database" where
  "createTables db =
     create_table_if_not_exists ''deals_products'' deals_products_table
       (create_table_if_not_exists ''deals'' deals_table db)"

text \<open>
  \<^verbatim>\<open>insertMultipleInTable\<close> and \<^verbatim>\<open>insertInTable\<close> return \<^verbatim>\<open>void\<close>, at once:
  each call opens a connection of its own, queues its statements on it and closes it, and
  the statements run later. The caller is given nothing to wait for. What a call
  contributes is therefore a write that is still to run: a function of the database it
  will find.
\<close>

type_synonym "write" = "database \<Rightarrow> database"

text \<open>
  \<^verbatim>\<open>record[field] || null\<close>, the value \<^verbatim>\<open>insertMultipleInTable\<close> binds for a field.
\<close>

definition or_null :: "jsval \<Rightarrow> jsval" where
  "or_null v = (if truthy v then v else JNull)"

text \<open>
  The write of \<^verbatim>\<open>insertMultipleInTable\<close>. The two validations throw into the
  method's own \<^verbatim>\<open>catch\<close>, which logs; nothing is queued then and the write changes
  nothing. The fields of the statement are the keys of the first record; the statements
  of the records are queued on one connection inside \<^verbatim>\<open>db.serialize\<close>, so they run in
  the order of the records, each on its own, and a failed row does not stop the rows
  after it.
\<close>

definition insertMultipleInTable :: "string \<Rightarrow> jsobj list \<Rightarrow> write" where
  "insertMultipleInTable tableName records db =
     (if tableName = [] then db
      else case records of
        [] \<Rightarrow> db
      | first # rest \<Rightarrow>
          let fields' = Object_keys first
          in foldl (\<lambda>d record.
               run_insert tableName fields'
                 (map (\<lambda>field. bind_param (or_null (get_prop record field))) fields') d)
             db records)"

text \<open>The write of \<^verbatim>\<open>insertInTable\<close>: one row, its values bound as they are.\<close>

definition insertInTable :: "string \<Rightarrow> jsobj \<Rightarrow> write" where
  "insertInTable tableName insertFields db =
     (if tableName = [] then db
      else run_insert tableName (Object_keys insertFields)
             (map bind_param (Object_values insertFields)) db)"

text \<open>
  \<^verbatim>\<open>getAll\<close>, on the database as it is when the query runs: the promise rejects when
  the query fails.
\<close>

definition getAll :: "string \<Rightarrow> database \<Rightarrow> exn + jsobj list" where
  "getAll tableName db =
     (if tableName = [] then Inl (Error ''Invalid parameters for getAll.'')
      else case db tableName of
        None \<Rightarrow> Inl (Error (''SQLITE_ERROR: no such table: '' @ tableName))
      | Some t \<Rightarrow> Inr (map js_of_row (rows t)))"

subsection \<open>Writes that nobody waits for\<close>

text \<open>
  The writes of calls made one after the other sit on different connections, and nothing
  orders them: they can run in the order of the calls or in any other. \<open>orders\<close>
  lists the orders in which the writes of a list can run, and \<open>run_in_order\<close> runs
  them in the order given.
\<close>

definition run_in_order :: "write list \<Rightarrow> database \<Rightarrow> database" where
  "run_in_order writes db = foldl (\<lambda>d w. w d) db writes"

fun insert_everywhere :: "'a \<Rightarrow> 'a list \<Rightarrow> 'a list list" where
  "insert_everywhere x [] = [[x]]"
| "insert_everywhere x (y # ys) = (x # y # ys) # map ((#) y) (insert_everywhere x ys)"

fun orders :: "'a list \<Rightarrow> 'a list list" where
  "orders [] = [[]]"
| "orders (x # xs) = concat (map (insert_everywhere x) (orders xs))"

section \<open>The handlers (\<^verbatim>\<open>index.js\<close>)\<close>

text \<open>
  The outcome of \<^verbatim>\<open>Number(x)\<close> as the handlers compare it: \<^verbatim>\<open>NaN\<close>, an integer,
  or a number that is no integer (a fraction or an infinity).
\<close>

datatype jsnumber = NaN | Integer int | NonInteger

text \<open>
  \<^verbatim>\<open>Number(x)\<close> on the modelled values. How JavaScript reads a string as a number
  (blanks, signs, fractions, exponents, hexadecimal digits, rounding to a double) is not
  modelled: the reading is a parameter, handed on by the handler that calls
  \<^verbatim>\<open>Number\<close>, and what is proved holds for every reading. An object that is no
  array has the text \<^verbatim>\<open>[object Object]\<close>, which is no numeric literal.
\<close>

fun Number :: "(string \<Rightarrow> jsnumber) \<Rightarrow> jsval \<Rightarrow> jsnumber" where
  "Number toNumber JUndefined = NaN"
| "Number toNumber JNull = Integer 0"
| "Number toNumber (JBool b) = Integer (if b then 1 else 0)"
| "Number toNumber (JNum n) = Integer n"
| "Number toNumber (JStr s) = toNumber s"
| "Number toNumber (JObj obj) = NaN"

text \<open>
  What a handler reads besides the request and the database: the outcome of
  \<^verbatim>\<open>decryptText(process.env.BX_LINK, process.env.CRYPTO_KEY, process.env.CRYPTO_IV)\<close>,
  a function of \<^verbatim>\<open>services/crypto.js\<close> that either returns the link or throws,
  and the client made for a link.
\<close>

record environment =
  decryptText_env :: "exn + string"
  Bitrix :: "string \<Rightarrow> bitrix"

record request =
  query_ID :: jsval
  body_data_FIELDS_ID :: jsval

text \<open>
  The answers the handlers send: status 200 with the payload of each handler, status 400
  with its message, and status 500 with \<^verbatim>\<open>RESPONSES.INTERNAL_SERVER_ERROR\<close>, which
  every \<^verbatim>\<open>catch\<close> sends. Logging is left out.

  A handler does not wait for the writes it asks the store for, and cannot. What it
  yields is its answer and the writes it has queued, in the order of the calls.
\<close>

datatype response =
  Status200_deal jsobj
| Status200_deals "jsobj list"
| Status200_total nat "jsobj list"
| Status400 string
| Status500

definition line_item :: "jsobj \<Rightarrow> jsobj \<Rightarrow> jsobj" where
  "line_item deal productrow =
     [(''deal_id'', get_prop deal ''id''),
      (''product_id'', get_prop productrow ''PRODUCT_ID''),
      (''product_name'', get_prop productrow ''PRODUCT_NAME''),
      (''price'', get_prop productrow ''PRICE_BRUTTO''),
      (''discount'', get_prop productrow ''DISCOUNT_SUM'')]"

text \<open>
  \<^verbatim>\<open>add_deal_handler\<close>. Reading \<^verbatim>\<open>deal.category_id\<close> of a \<^verbatim>\<open>null\<close> deal and
  calling \<^verbatim>\<open>productrows.forEach\<close> on \<^verbatim>\<open>null\<close> throw a TypeError, and the
  eligibility check throws its own error: all three end in the \<^verbatim>\<open>catch\<close>. A write
  queued before an exception stays queued.
\<close>

definition add_deal_handler ::
  "(string \<Rightarrow> jsnumber) \<Rightarrow> environment \<Rightarrow> request \<Rightarrow> response \<times> write list" where
  "add_deal_handler toNumber env req =
     (let id' = (if \<not> truthy (query_ID req) then body_data_FIELDS_ID req else query_ID req)
      in if \<not> truthy id' then (Status400 ''No deal id provided'', [])
      else case decryptText_env env of
        Inl error \<Rightarrow> (Status500, [])
      | Inr bxLinkDecrypted \<Rightarrow>
          let dealsService = Bitrix env bxLinkDecrypted
          in case getDealById dealsService id' of
            Rejected error \<Rightarrow> (Status500, [])
          | Resolved None \<Rightarrow> (Status500, [])
          | Resolved (Some deal) \<Rightarrow>
              if Number toNumber (get_prop deal ''category_id'') \<noteq> Integer 68
                 \<and> Number toNumber (get_prop deal ''price_type'') \<noteq> Integer 616
              then (Status500, [])
              else
                case getDealProductRows dealsService (get_prop deal ''id'') of
                  Rejected error \<Rightarrow> (Status500, [insertInTable ''deals'' deal])
                | Resolved None \<Rightarrow> (Status500, [insertInTable ''deals'' deal])
                | Resolved (Some productrows) \<Rightarrow>
                    (Status200_deal deal,
                     [insertInTable ''deals'' deal,
                      insertMultipleInTable ''deal_products'' (map (line_item deal) productrows)]))"

text \<open>An array is an object, and every object is truthy.\<close>

definition truthy_array :: "'a list \<Rightarrow> bool" where
  "truthy_array xs = True"

definition deal_of_remote :: "jsobj \<Rightarrow> jsobj" where
  "deal_of_remote deal =
     [(''id'', get_prop deal ''ID''),
      (''title'', get_prop deal ''TITLE''),
      (''category_id'', get_prop deal ''CATEGORY_ID''),
      (''price_type'', get_prop deal ''UF_CRM_1710140074001''),
      (''date_create'', get_prop deal ''DATE_CREATE'')]"

text \<open>
  \<^verbatim>\<open>get_deals_from_bx_insert_in_db\<close>. \<open>None\<close>: the pagination never ends and no
  answer is sent. \<^verbatim>\<open>.map\<close> on a \<^verbatim>\<open>null\<close> result throws a TypeError. The
  \<^verbatim>\<open>await\<close> in front of \<^verbatim>\<open>db.insertMultipleInTable\<close> waits for \<^verbatim>\<open>undefined\<close>,
  not for the write.
\<close>

definition get_deals_from_bx_insert_in_db :: "environment \<Rightarrow> (response \<times> write list) option" where
  "get_deals_from_bx_insert_in_db env =
     (case decryptText_env env of
        Inl error \<Rightarrow> Some (Status500, [])
      | Inr bxLinkDecrypted \<Rightarrow>
          (case getDealsByFilter (Bitrix env bxLinkDecrypted)
                  [(''UF_CRM_1710140074001'', JNum 616), (''CATEGORY_ID'', JNum 68)] of
             None \<Rightarrow> None
           | Some (requests, Rejected error) \<Rightarrow> Some (Status500, [])
           | Some (requests, Resolved None) \<Rightarrow> Some (Status500, [])
           | Some (requests, Resolved (Some found)) \<Rightarrow>
               let deals = map deal_of_remote found
               in if \<not> truthy_array deals \<and> length deals \<le> 0 then Some (Status500, [])
                  else Some (Status200_deals deals, [insertMultipleInTable ''deals'' deals])))"

text \<open>
  The \<^verbatim>\<open>for (const deal of deals)\<close> loop of
  \<^verbatim>\<open>get_deals_product_rows_from_bx_insert_in_db\<close>, which fills \<^verbatim>\<open>records\<close>.
\<close>

fun collect_productrows :: "bitrix \<Rightarrow> jsobj list \<Rightarrow> jsobj list \<Rightarrow> exn + jsobj list" where
  "collect_productrows dealsService [] records = Inr records"
| "collect_productrows dealsService (deal # deals) records =
     (case getDealProductRows dealsService (get_prop deal ''id'') of
        Rejected error \<Rightarrow> Inl error
      | Resolved None \<Rightarrow> Inl TypeError
      | Resolved (Some productrows) \<Rightarrow>
          collect_productrows dealsService deals (records @ map (line_item deal) productrows))"

text \<open>
  \<^verbatim>\<open>get_deals_product_rows_from_bx_insert_in_db\<close>, on the database as
  \<^verbatim>\<open>await db.getAll("deals")\<close> finds it.
\<close>

definition get_deals_product_rows_from_bx_insert_in_db ::
  "environment \<Rightarrow> database \<Rightarrow> response \<times> write list" where
  "get_deals_product_rows_from_bx_insert_in_db env db =
     (case decryptText_env env of
        Inl error \<Rightarrow> (Status500, [])
      | Inr bxLinkDecrypted \<Rightarrow>
          (case getAll ''deals'' db of
             Inl error \<Rightarrow> (Status500, [])
           | Inr deals \<Rightarrow>
               (case collect_productrows (Bitrix env bxLinkDecrypted) deals [] of
                  Inl error \<Rightarrow> (Status500, [])
                | Inr records \<Rightarrow>
                    (Status200_total (length deals) deals,
                     [insertMultipleInTable ''deals_products'' records]))))"

section \<open>Example inputs\<close>

text \<open>The database right after \<^verbatim>\<open>db.createTables()\<close> on a new file.\<close>

definition startup_database :: database where
  "startup_database = createTables Map.empty"

text \<open>A deal with the five fields \<^verbatim>\<open>getDealById\<close> resolves with.\<close>

definition deal_record :: "jsval \<Rightarrow> jsval \<Rightarrow> jsval \<Rightarrow> jsval \<Rightarrow> jsval \<Rightarrow> jsobj" where
  "deal_record id' title category_id price_type date_create =
     [(''id'', id'), (''title'', title), (''category_id'', category_id),
      (''price_type'', price_type), (''date_create'', date_create)]"

text \<open>An environment with a link that decrypts and one client.\<close>

definition environment_of :: "bitrix \<Rightarrow> environment" where
  "environment_of client =
     \<lparr>decryptText_env = Inr ''https://example.bitrix/webhook'', Bitrix = (\<lambda>link. client)\<rparr>"

text \<open>The deal id 5, in the query and in the body of the request.\<close>

definition request_5 :: request where
  "request_5 = \<lparr>query_ID = JStr ''5'', body_data_FIELDS_ID = JUndefined\<rparr>"

definition request_body_5 :: request where
  "request_body_5 = \<lparr>query_ID = JUndefined, body_data_FIELDS_ID = JStr ''5''\<rparr>"

text \<open>
  The client over a CRM that holds the given deals. \<^verbatim>\<open>bx.deals.list\<close> of the package
  follows the pages of the CRM by itself: it resolves with all the deals from the offset
  \<^verbatim>\<open>start\<close> on, and with their number as the total.
\<close>

definition client_of_crm :: "jsobj list \<Rightarrow> bitrix" where
  "client_of_crm deals =
     \<lparr>deals_get = (\<lambda>id'. Inl (Error ''not found'')),
      deals_list = (\<lambda>filter' start.
        Inr \<lparr>result = drop (nat start) deals, total = int (length deals)\<rparr>),
      call_productrows_get = (\<lambda>id'. Inr [])\<rparr>"

definition deals_120 :: "jsobj list" where
  "deals_120 = map (\<lambda>k. [(''ID'', JNum (int k))]) [0..<120]"

text \<open>A client that reports 120 deals and sends none of them.\<close>

definition stalled_crm :: bitrix where
  "stalled_crm =
     \<lparr>deals_get = (\<lambda>id'. Inl (Error ''not found'')),
      deals_list = (\<lambda>filter' start. Inr \<lparr>result = [], total = 120\<rparr>),
      call_productrows_get = (\<lambda>id'. Inr [])\<rparr>"

text \<open>A client whose reported total stays 100 ahead of the offset asked for.\<close>

definition growing_crm :: bitrix where
  "growing_crm =
     \<lparr>deals_get = (\<lambda>id'. Inl (Error ''not found'')),
      deals_list = (\<lambda>filter' start. Inr \<lparr>result = [], total = start + 100\<rparr>),
      call_productrows_get = (\<lambda>id'. Inr [])\<rparr>"

text \<open>
  A client that answers fetch-by-id and line items with a timeout, and the list with one
  page of a reported 120 deals and a timeout after it.
\<close>

definition timeout_crm :: bitrix where
  "timeout_crm =
     \<lparr>deals_get = (\<lambda>id'. Inl (Error ''ETIMEDOUT'')),
      deals_list = (\<lambda>filter' start.
        if start = 0 then Inr \<lparr>result = take 50 deals_120, total = 120\<rparr>
        else Inl (Error ''ETIMEDOUT'')),
      call_productrows_get = (\<lambda>id'. Inl (Error ''ETIMEDOUT''))\<rparr>"

text \<open>
  The deal 5 as the CRM holds it, in the accepted category 68 and with the price type
  1 instead of 616, and the same deal with the accepted price type.
\<close>

definition remote_deal_5_price_type_1 :: jsobj where
  "remote_deal_5_price_type_1 =
     [(''ID'', JStr ''5''), (''TITLE'', JStr ''Order''), (''CATEGORY_ID'', JStr ''68''),
      (''UF_CRM_1710140074001'', JStr ''1''), (''DATE_CREATE'', JStr ''2024-05-01'')]"

definition remote_deal_5_accepted :: jsobj where
  "remote_deal_5_accepted =
     [(''ID'', JStr ''5''), (''TITLE'', JStr ''Order''), (''CATEGORY_ID'', JStr ''68''),
      (''UF_CRM_1710140074001'', JStr ''616''), (''DATE_CREATE'', JStr ''2024-05-01'')]"

text \<open>The client of the package over a CRM that holds one deal and no line items.\<close>

definition client_of_deal :: "jsobj \<Rightarrow> bitrix" where
  "client_of_deal deal =
     \<lparr>deals_get = (\<lambda>id'. Inr (rest_envelope deal [(''start'', JNum 0), (''finish'', JNum 1)])),
      deals_list = (\<lambda>filter' start. Inr \<lparr>result = drop (nat start) [deal], total = 1\<rparr>),
      call_productrows_get = (\<lambda>id'. Inr [])\<rparr>"


text \<open>The deal and the line items that the handler makes of these answers.\<close>

definition deal_5 :: jsobj where
  "deal_5 = deal_record (JNum 5) (JStr ''Order'') (JNum 68) (JNum 616) (JStr ''2024-05-01'')"


text \<open>The same client, timing out on the line items.\<close>

definition crm_line_items_timeout :: bitrix where
  "crm_line_items_timeout =
     \<lparr>deals_get = (\<lambda>id'.
        Inr [(''ID'', JNum 5), (''TITLE'', JStr ''Order''), (''CATEGORY_ID'', JNum 68),
             (''UF_CRM_1710140074001'', JNum 616), (''DATE_CREATE'', JStr ''2024-05-01'')]),
      deals_list = (\<lambda>filter' start. Inl (Error ''ETIMEDOUT'')),
      call_productrows_get = (\<lambda>id'. Inl (Error ''ETIMEDOUT''))\<rparr>"

text \<open>A deal as the CRM lists it.\<close>

definition remote_deal_3 :: jsobj where
  "remote_deal_3 =
     [(''ID'', JStr ''3''), (''TITLE'', JStr ''Third''), (''CATEGORY_ID'', JStr ''68''),
      (''UF_CRM_1710140074001'', JStr ''616''), (''DATE_CREATE'', JStr ''2024-05-03'')]"

text \<open>A client that has line items for deal 1 and times out on every other deal.\<close>

definition crm_line_items_of_1 :: bitrix where
  "crm_line_items_of_1 =
     \<lparr>deals_get = (\<lambda>id'. Inl (Error ''ETIMEDOUT'')),
      deals_list = (\<lambda>filter' start. Inl (Error ''ETIMEDOUT'')),
      call_productrows_get = (\<lambda>id'.
        if id' = JNum 1
        then Inr [[(''PRODUCT_ID'', JNum 11), (''PRODUCT_NAME'', JStr ''Chair''),
                   (''PRICE_BRUTTO'', JNum 100), (''DISCOUNT_SUM'', JNum 5)]]
        else Inl (Error ''ETIMEDOUT''))\<rparr>"

text \<open>The store with the deals 1 and 2.\<close>

definition two_deals_database :: database where
  "two_deals_database =
     insertMultipleInTable ''deals''
       [deal_record (JNum 1) (JStr ''First'') (JNum 68) (JNum 616) (JStr ''2024-05-01''),
        deal_record (JNum 2) (JStr ''Second'') (JNum 68) (JNum 616) (JStr ''2024-05-02'')]
       startup_database"


text \<open>
  The three writes of the scenario of the deals table: the deals 1 and 2, and the deal 1
  again under a new title.
\<close>

definition insert_first :: "write" where
  "insert_first =
     insertInTable ''deals''
       (deal_record (JNum 1) (JStr ''First'') (JNum 68) (JNum 616) (JStr ''2024-05-01''))"

definition insert_second :: "write" where
  "insert_second =
     insertInTable ''deals''
       (deal_record (JNum 2) (JStr ''Second'') (JNum 68) (JNum 616) (JStr ''2024-05-02''))"

definition insert_renamed :: "write" where
  "insert_renamed =
     insertInTable ''deals''
       (deal_record (JNum 1) (JStr ''Renamed'') (JNum 68) (JNum 616) (JStr ''2024-05-01''))"

text \<open>Line items of deal 7 for a product without catalogue entry, whose product id is 0.\<close>

definition delivery_100 :: jsobj where
  "delivery_100 =
     [(''deal_id'', JNum 7), (''product_id'', JNum 0), (''product_name'', JStr ''Delivery''),
      (''price'', JNum 100), (''discount'', JNum 5)]"

definition delivery_120 :: jsobj where
  "delivery_120 =
     [(''deal_id'', JNum 7), (''product_id'', JNum 0), (''product_name'', JStr ''Delivery''),
      (''price'', JNum 120), (''discount'', JNum 5)]"

text \<open>A line item of deal 7 for the catalogue product 11, at two prices.\<close>

definition chair_100 :: jsobj where
  "chair_100 =
     [(''deal_id'', JNum 7), (''product_id'', JNum 11), (''product_name'', JStr ''Chair''),
      (''price'', JNum 100), (''discount'', JNum 5)]"

definition chair_120 :: jsobj where
  "chair_120 =
     [(''deal_id'', JNum 7), (''product_id'', JNum 11), (''product_name'', JStr ''Chair''),
      (''price'', JNum 120), (''discount'', JNum 8)]"

text \<open>
  Two line items: the first without \<^verbatim>\<open>discount\<close>, the second with a
  \<^verbatim>\<open>discount\<close> and the price 0.
\<close>

definition item_first :: jsobj where
  "item_first = [(''deal_id'', JNum 7), (''product_id'', JNum 3), (''price'', JNum 100)]"

definition item_later :: jsobj where
  "item_later =
     [(''deal_id'', JNum 7), (''product_id'', JNum 4), (''price'', JNum 0), (''discount'', JNum 9)]"

text \<open>A deal whose id is 0.\<close>

definition deal_0 :: jsobj where
  "deal_0 = deal_record (JNum 0) (JStr ''Order'') (JNum 68) (JNum 616) (JStr ''2024-05-01'')"

section \<open>Properties of the remote deal client\<close>

subsection \<open>The pagination loop\<close>

text \<open>
  Against a server that answers every request with one page of 50 of the deals it holds
  and reports their number as the total, the loop started at an offset inside the list,
  with the deals before the offset already collected, requests the remaining pages and
  ends with all the deals.
\<close>

lemma list_loop_paging:
  assumes paging: "\<And>start. 0 \<le> start \<Longrightarrow>
      deals_list bx f start =
        Inr \<lparr>result = take 50 (drop (nat start) deals), total = int (length deals)\<rparr>"
  shows "0 \<le> s \<Longrightarrow> s < int (length deals) \<or> s = 0 \<Longrightarrow>
     list_loop bx f s rq (take (nat s) deals) =
       Some (rq @ map (\<lambda>k. s + 50 * int k)
                    [0..<max 1 (nat ((int (length deals) - s + 49) div 50))],
             Inr deals)"
proof (induction "nat (int (length deals) - s)" arbitrary: s rq rule: less_induct)
  case less
  let ?T = "int (length deals)"
  have resp: "deals_list bx f s = Inr \<lparr>result = take 50 (drop (nat s) deals), total = ?T\<rparr>"
    using paging less.prems(1) by simp
  show ?case
  proof (cases "?T < 50 \<or> \<not> s + 50 < ?T")
    case True
    then have short: "length deals - nat s \<le> 50"
      using less.prems by auto
    have all: "take (nat s) deals @ take 50 (drop (nat s) deals) = deals"
    proof -
      have "take (nat s) deals @ take 50 (drop (nat s) deals) = take (nat s + 50) deals"
        by (simp add: take_add)
      also have "\<dots> = deals"
        using short by simp
      finally show ?thesis .
    qed
    have n: "max 1 (nat ((?T - s + 49) div 50)) = 1"
      using True less.prems by auto
    show ?thesis
      using True less.prems(1) by (subst list_loop.simps) (auto simp: resp pageSize_def all n)
  next
    case False
    then have more: "50 \<le> ?T" "s + 50 < ?T"
      by auto
    define m where "m = max 1 (nat ((?T - (s + 50) + 49) div 50))"
    have acc: "take (nat s) deals @ take 50 (drop (nat s) deals) = take (nat (s + 50)) deals"
      using less.prems(1) by (simp add: take_add nat_add_distrib)
    have IH: "list_loop bx f (s + 50) (rq @ [s]) (take (nat (s + 50)) deals) =
       Some ((rq @ [s]) @ map (\<lambda>k. (s + 50) + 50 * int k) [0..<m], Inr deals)"
      unfolding m_def using less.hyps[of "s + 50" "rq @ [s]"] less.prems more by auto
    have n: "max 1 (nat ((?T - s + 49) div 50)) = Suc m"
      unfolding m_def using more less.prems(1) by auto
    have "[0..<Suc m] = 0 # map Suc [0..<m]"
      by (simp add: upt_conv_Cons map_Suc_upt del: upt_Suc)
    then have offsets: "map (\<lambda>k. s + 50 * int k) [0..<Suc m] =
        s # map (\<lambda>k. (s + 50) + 50 * int k) [0..<m]"
      by (simp add: algebra_simps del: upt_Suc)
    have "list_loop bx f s rq (take (nat s) deals) =
        list_loop bx f (s + 50) (rq @ [s]) (take (nat (s + 50)) deals)"
      using more by (subst list_loop.simps) (simp add: resp pageSize_def acc)
    also have "\<dots> = Some (rq @ map (\<lambda>k. s + 50 * int k) [0..<Suc m], Inr deals)"
      unfolding IH offsets by simp
    finally show ?thesis
      unfolding n .
  qed
qed

lemma upt_Suc_shift: "map g [0..<Suc m] = g 0 # map (\<lambda>k. g (Suc k)) [0..<m]"
proof -
  have "[0..<Suc m] = 0 # map Suc [0..<m]"
    by (simp add: upt_conv_Cons map_Suc_upt del: upt_Suc)
  then show ?thesis
    by (simp add: comp_def del: upt_Suc)
qed

text \<open>
  Each turn of the loop moves the offset 50 further. So when no reported total exceeds
  \<open>T\<close> the loop ends: it makes the requests at its offset and the offsets 50, 100, ...
  after it for as long as the test of the loop sends it on, at most \<open>\<lceil>(T - s) / 50\<rceil>\<close> of
  them and at least one, and it ends with the exception of the last request or with the
  records of all the requests, in their order.
\<close>

lemma list_loop_run:
  assumes bound: "\<And>start res. deals_list bx f start = Inr res \<Longrightarrow> total res \<le> T"
  shows "\<exists>m. Suc m \<le> max 1 (nat ((T - s + 49) div 50))
           \<and> (\<forall>k<m. loop_goes_on bx f (s + 50 * int k))
           \<and> \<not> loop_goes_on bx f (s + 50 * int m)
           \<and> list_loop bx f s rq acc =
               Some (rq @ map (\<lambda>k. s + 50 * int k) [0..<Suc m],
                     map_sum (\<lambda>error. error)
                       (\<lambda>res. acc @ concat (map (\<lambda>k. page_received bx f (s + 50 * int k))
                                              [0..<Suc m]))
                       (deals_list bx f (s + 50 * int m)))"
proof (induction "nat (T - s)" arbitrary: s rq acc rule: less_induct)
  case less
  show ?case
  proof (cases "loop_goes_on bx f s")
    case False
    have "list_loop bx f s rq acc =
        Some (rq @ [s], map_sum (\<lambda>error. error) (\<lambda>res. acc @ page_received bx f s)
                          (deals_list bx f s))"
      using False
      by (subst list_loop.simps) (auto simp: loop_goes_on_def page_received_def split: sum.splits)
    then show ?thesis
      using False by (intro exI[of _ 0]) simp
  next
    case True
    then obtain res where res: "deals_list bx f s = Inr res"
      and on: "\<not> total res < pageSize" "s + pageSize < total res"
      by (auto simp: loop_goes_on_def split: sum.splits)
    have lt: "s + 50 < T"
      using bound[OF res] on by (simp add: pageSize_def)
    then have "nat (T - (s + 50)) < nat (T - s)"
      by simp
    from less[OF this, of "rq @ [s]" "acc @ result res"]
    obtain m where
      m_le: "Suc m \<le> max 1 (nat ((T - (s + 50) + 49) div 50))"
      and m_on: "\<forall>k<m. loop_goes_on bx f (s + 50 + 50 * int k)"
      and m_off: "\<not> loop_goes_on bx f (s + 50 + 50 * int m)"
      and m_loop: "list_loop bx f (s + 50) (rq @ [s]) (acc @ result res) =
               Some ((rq @ [s]) @ map (\<lambda>k. s + 50 + 50 * int k) [0..<Suc m],
                     map_sum (\<lambda>error. error)
                       (\<lambda>res'. (acc @ result res) @
                              concat (map (\<lambda>k. page_received bx f (s + 50 + 50 * int k))
                                              [0..<Suc m]))
                       (deals_list bx f (s + 50 + 50 * int m)))"
      by blast
    have shift: "s + 50 + 50 * int k = s + 50 * int (Suc k)" for k
      by simp
    have first: "page_received bx f s = result res"
      by (simp add: page_received_def res)
    have le: "Suc (Suc m) \<le> max 1 (nat ((T - s + 49) div 50))"
    proof -
      have "1 + max 1 (nat ((T - (s + 50) + 49) div 50)) \<le> max 1 (nat ((T - s + 49) div 50))"
        using lt by auto
      with m_le show ?thesis
        by linarith
    qed
    have on': "\<forall>k<Suc m. loop_goes_on bx f (s + 50 * int k)"
    proof (intro allI impI)
      fix k assume k: "k < Suc m"
      show "loop_goes_on bx f (s + 50 * int k)"
      proof (cases k)
        case 0
        then show ?thesis using True by simp
      next
        case (Suc j)
        then have "j < m" using k by simp
        with m_on have "loop_goes_on bx f (s + 50 + 50 * int j)" by blast
        then show ?thesis unfolding shift Suc .
      qed
    qed
    have off': "\<not> loop_goes_on bx f (s + 50 * int (Suc m))"
      using m_off unfolding shift .
    have offsets: "map (\<lambda>k. s + 50 * int k) [0..<Suc (Suc m)] =
        s # map (\<lambda>k. s + 50 + 50 * int k) [0..<Suc m]"
      by (subst upt_Suc_shift) (simp add: algebra_simps del: upt_Suc)
    have pages: "concat (map (\<lambda>k. page_received bx f (s + 50 * int k)) [0..<Suc (Suc m)]) =
        result res @ concat (map (\<lambda>k. page_received bx f (s + 50 + 50 * int k)) [0..<Suc m])"
      by (subst upt_Suc_shift) (simp add: first algebra_simps del: upt_Suc)
    have "list_loop bx f s rq acc = list_loop bx f (s + 50) (rq @ [s]) (acc @ result res)"
      using on res by (subst list_loop.simps) (simp add: pageSize_def)
    also have "\<dots> = Some (rq @ map (\<lambda>k. s + 50 * int k) [0..<Suc (Suc m)],
                     map_sum (\<lambda>error. error)
                       (\<lambda>res'. acc @ concat (map (\<lambda>k. page_received bx f (s + 50 * int k))
                                              [0..<Suc (Suc m)]))
                       (deals_list bx f (s + 50 * int (Suc m))))"
      unfolding m_loop offsets pages shift by simp
    finally show ?thesis
      using le on' off' by blast
  qed
qed


text \<open>Against the client whose total keeps ahead of the offset the loop never ends.\<close>

lemma list_loop_growing:
  assumes "list_loop bx f s rq acc = Some y"
  shows "bx = growing_crm \<longrightarrow> 0 \<le> s \<longrightarrow> False"
proof (rule list_loop.raw_induct[where P = "\<lambda>bx f s rq acc y. bx = growing_crm \<longrightarrow> 0 \<le> s \<longrightarrow> False",
         OF _ assms])
  fix loop bx f s rq acc y
  assume IH: "\<And>bx f s rq acc y. loop bx f s rq acc = Some y \<Longrightarrow>
       bx = growing_crm \<longrightarrow> 0 \<le> s \<longrightarrow> False"
    and body: "(case deals_list bx f s of
        Inl error \<Rightarrow> Some (rq @ [s], Inl error)
      | Inr res \<Rightarrow>
          if total res < pageSize
          then Some (rq @ [s], Inr (acc @ result res))
          else if s + pageSize < total res
          then loop bx f (s + pageSize) (rq @ [s]) (acc @ result res)
          else Some (rq @ [s], Inr (acc @ result res))) = Some y"
  show "bx = growing_crm \<longrightarrow> 0 \<le> s \<longrightarrow> False"
  proof (intro impI)
    assume crm: "bx = growing_crm" and s: "0 \<le> s"
    have "loop bx f (s + pageSize) (rq @ [s]) (acc @ []) = Some y"
      using body s unfolding crm by (simp add: growing_crm_def pageSize_def)
    from IH[OF this] crm s show False
      by (simp add: pageSize_def)
  qed
qed

subsection \<open>Claims about the client\<close>

text \<open>
  The loop is written for a server that answers one page per request: against such a
  server \<^verbatim>\<open>getDealsByFilter\<close> resolves with exactly the deals it holds, whatever their
  number, after the requests at 0, 50, 100, ...
\<close>

lemma getDealsByFilter_one_page_per_request:
  assumes "\<forall>start\<ge>0. deals_list bx filter' start =
      Inr \<lparr>result = take 50 (drop (nat start) deals), total = int (length deals)\<rparr>"
  shows "getDealsByFilter bx filter' =
       Some (map (\<lambda>k. 50 * int k) [0..<max 1 ((length deals + 49) div 50)],
             Resolved (Some deals))"
proof -
  have pages: "nat ((int (length deals) - 0 + 49) div 50) = (length deals + 49) div 50"
    by (simp add: nat_div_distrib nat_add_distrib)
  have "list_loop bx filter' 0 [] (take (nat 0) deals) =
       Some ([] @ map (\<lambda>k. 0 + 50 * int k)
                    [0..<max 1 (nat ((int (length deals) - 0 + 49) div 50))],
             Inr deals)"
    by (rule list_loop_paging) (use assms in simp_all)
  then show ?thesis
    unfolding pages by (simp add: getDealsByFilter_def)
qed

text \<open>
  Through the client of the package, whose list resolves with all the deals from the
  offset on, the operation is exact for up to 50 deals, which take one request, and
  resolves with more records than there are deals for every larger number.
\<close>

lemma getDealsByFilter_exact_up_to_50:
  assumes "length deals \<le> 50"
  shows "getDealsByFilter (client_of_crm deals) filter' = Some ([0], Resolved (Some deals))"
proof -
  have "list_loop (client_of_crm deals) filter' 0 [] [] = Some ([0], Inr deals)"
    using assms by (subst list_loop.simps) (simp add: client_of_crm_def pageSize_def)
  then show ?thesis
    by (simp add: getDealsByFilter_def)
qed

lemma getDealsByFilter_repeats_beyond_50:
  assumes "50 < length deals"
  shows "\<exists>requests found.
           getDealsByFilter (client_of_crm deals) filter' = Some (requests, Resolved (Some found))
           \<and> length deals < length found"
proof -
  let ?bx = "client_of_crm deals"
  have answer: "deals_list ?bx filter' start =
      Inr \<lparr>result = drop (nat start) deals, total = int (length deals)\<rparr>" for start
    by (simp add: client_of_crm_def)
  have bound: "total res \<le> int (length deals)"
    if "deals_list ?bx filter' start = Inr res" for start res
    using that by (auto simp: answer)
  from list_loop_run[of ?bx filter' "int (length deals)" 0 "[]" "[]"] bound
  obtain m where
    off: "\<not> loop_goes_on ?bx filter' (50 * int m)"
    and run: "list_loop ?bx filter' 0 [] [] =
               Some ([] @ map (\<lambda>k. 0 + 50 * int k) [0..<Suc m],
                     map_sum (\<lambda>error. error)
                       (\<lambda>res. [] @ concat (map (\<lambda>k. page_received ?bx filter' (0 + 50 * int k))
                                              [0..<Suc m]))
                       (deals_list ?bx filter' (0 + 50 * int m)))"
    by (auto simp del: upt_Suc)
  have loop: "list_loop ?bx filter' 0 [] [] =
               Some (map (\<lambda>k. 50 * int k) [0..<Suc m],
                     Inr (concat (map (\<lambda>k. page_received ?bx filter' (50 * int k)) [0..<Suc m])))"
    unfolding run by (simp add: answer del: upt_Suc)
  have "loop_goes_on ?bx filter' 0"
    using assms by (simp add: loop_goes_on_def answer pageSize_def)
  with off obtain j where m: "m = Suc j"
    by (cases m) simp_all
  have pages: "page_received ?bx filter' start = drop (nat start) deals" for start
    by (simp add: page_received_def answer)
  have "concat (map (\<lambda>k. page_received ?bx filter' (50 * int k)) [0..<Suc m]) =
      deals @ drop 50 deals @
        concat (map (\<lambda>k. page_received ?bx filter' (50 * int (Suc (Suc k)))) [0..<j])"
    unfolding m
    by (subst upt_Suc_shift, subst upt_Suc_shift) (simp add: pages nat_add_distrib del: upt_Suc)
  then have "length deals < length (concat (map (\<lambda>k. page_received ?bx filter' (50 * int k))
      [0..<Suc m]))"
    using assms by simp
  then show ?thesis
    unfolding getDealsByFilter_def loop by simp
qed

text \<open>
  Claim C2: \<^verbatim>\<open>getDealsByFilter\<close> returns exactly \<^verbatim>\<open>total\<close> records, and with 120 deals
  it makes the three requests at 0, 50 and 100 and returns 120 records. The code breaks
  it for every total above 50. \<^verbatim>\<open>bx.deals.list\<close> of the package does not answer with
  one page: it follows the pages of the CRM by itself and resolves with all the deals
  from \<^verbatim>\<open>start\<close> on. The loop of \<^verbatim>\<open>getDealsByFilter\<close> pages a second time on top of
  that, so the deals beyond an offset come again with every request made after it. With
  120 deals the requests at 0, 50 and 100 are answered with 120, 70 and 20 deals, and
  the operation resolves with 210 records: the deals 50 to 99 twice and the deals 100
  to 119 three times.
\<close>

theorem getDealsByFilter_repeats_later_pages:
  "getDealsByFilter (client_of_crm deals_120) [] =
     Some ([0, 50, 100], Resolved (Some (deals_120 @ drop 50 deals_120 @ drop 100 deals_120)))
   \<and> length deals_120 = 120
   \<and> length (deals_120 @ drop 50 deals_120 @ drop 100 deals_120) = 210"
proof -
  have len: "length deals_120 = 120"
    by (simp add: deals_120_def)
  have "list_loop (client_of_crm deals_120) [] 0 [] [] =
      Some ([0, 50, 100], Inr (deals_120 @ drop 50 deals_120 @ drop 100 deals_120))"
    by (subst list_loop.simps, subst list_loop.simps, subst list_loop.simps)
       (simp add: client_of_crm_def pageSize_def len)
  then show ?thesis
    by (simp add: getDealsByFilter_def len)
qed



text \<open>
  Claim C7, as stated, fails. A CRM whose reported total stays ahead of the offset
  reports a finite total on every page and keeps the loop running for ever, and a CRM
  that reports 120 deals and sends none is not taken for a protocol violation: the
  operation resolves with the empty list after three requests.
\<close>

theorem pagination_counterexample:
  "getDealsByFilter growing_crm [] = None
   \<and> getDealsByFilter stalled_crm [] = Some ([0, 50, 100], Resolved (Some []))"
proof
  show "getDealsByFilter growing_crm [] = None"
  proof (cases "list_loop growing_crm [] 0 [] []")
    case None
    then show ?thesis
      by (simp add: getDealsByFilter_def)
  next
    case (Some y)
    from list_loop_growing[OF this] show ?thesis
      by simp
  qed
  have "list_loop stalled_crm [] 0 [] [] = Some ([0, 50, 100], Inr [])"
    by (subst list_loop.simps, subst list_loop.simps, subst list_loop.simps)
       (simp add: stalled_crm_def pageSize_def)
  then show "getDealsByFilter stalled_crm [] = Some ([0, 50, 100], Resolved (Some []))"
    by (simp add: getDealsByFilter_def)
qed

text \<open>
  Claim C7, amended. The loop moves the offset 50 further on every turn, whatever the
  page holds. So when the totals that are reported stay at or below some \<open>T\<close>, as they
  do when the same total is reported on every page, \<^verbatim>\<open>getDealsByFilter\<close> settles: it
  makes \<open>n\<close> requests, at the offsets 0, 50, ..., \<open>50 * (n - 1)\<close>, where \<open>n\<close> is at
  least 1 and at most \<open>\<lceil>T / 50\<rceil>\<close> (1 when \<open>T\<close> is 0 or less) and is the number of
  the first request after which the test of the loop fails. No check on the pages is
  made: unless the last request is rejected, which gives \<^verbatim>\<open>null\<close>, the operation
  resolves with the records received in answer to these requests, in their order and
  however few they are, and never with an error.
\<close>

theorem pagination_ends_for_bounded_totals:
  assumes "\<forall>start res. deals_list bx filter' start = Inr res \<longrightarrow> total res \<le> T"
  shows "\<exists>n. 0 < n \<and> n \<le> max 1 (nat ((T + 49) div 50))
           \<and> (\<forall>k<n - 1. loop_goes_on bx filter' (50 * int k))
           \<and> \<not> loop_goes_on bx filter' (50 * int (n - 1))
           \<and> getDealsByFilter bx filter' =
               Some (map (\<lambda>k. 50 * int k) [0..<n],
                     if \<exists>error. deals_list bx filter' (50 * int (n - 1)) = Inl error
                     then Resolved None
                     else Resolved (Some (concat (map (\<lambda>k. page_received bx filter' (50 * int k))
                                                      [0..<n]))))"
proof -
  from list_loop_run[of bx filter' T 0 "[]" "[]"] assms
  obtain m where
    m_le: "Suc m \<le> max 1 (nat ((T + 49) div 50))"
    and m_on: "\<forall>k<m. loop_goes_on bx filter' (50 * int k)"
    and m_off: "\<not> loop_goes_on bx filter' (50 * int m)"
    and m_loop: "list_loop bx filter' 0 [] [] =
               Some (map (\<lambda>k. 50 * int k) [0..<Suc m],
                     map_sum (\<lambda>error. error)
                       (\<lambda>res. concat (map (\<lambda>k. page_received bx filter' (50 * int k))
                                              [0..<Suc m]))
                       (deals_list bx filter' (50 * int m)))"
    by auto
  have "getDealsByFilter bx filter' =
               Some (map (\<lambda>k. 50 * int k) [0..<Suc m],
                     if \<exists>error. deals_list bx filter' (50 * int m) = Inl error
                     then Resolved None
                     else Resolved (Some (concat (map (\<lambda>k. page_received bx filter' (50 * int k))
                                                      [0..<Suc m]))))"
    unfolding getDealsByFilter_def m_loop
    by (cases "deals_list bx filter' (50 * int m)") simp_all
  then show ?thesis
    using m_le m_on m_off by (intro exI[of _ "Suc m"]) simp
qed

text \<open>
  The CRM that reports 120 deals and sends none: requests at 0, 50 and 100, and the
  empty list as result.
\<close>

theorem pagination_ends_for_bounded_totals_witness:
  "getDealsByFilter stalled_crm [] = Some ([0, 50, 100], Resolved (Some []))"
proof -
  have "\<forall>start res. deals_list stalled_crm [] start = Inr res \<longrightarrow> total res \<le> 120"
    by (auto simp: stalled_crm_def)
  from pagination_ends_for_bounded_totals[OF this]
  obtain n where n: "0 < n" "n \<le> 3"
    and on: "\<forall>k<n - 1. loop_goes_on stalled_crm [] (50 * int k)"
    and off: "\<not> loop_goes_on stalled_crm [] (50 * int (n - 1))"
    and res: "getDealsByFilter stalled_crm [] =
               Some (map (\<lambda>k. 50 * int k) [0..<n],
                     if \<exists>error. deals_list stalled_crm [] (50 * int (n - 1)) = Inl error
                     then Resolved None
                     else Resolved (Some (concat (map (\<lambda>k. page_received stalled_crm [] (50 * int k))
                                                      [0..<n]))))"
    by auto
  have "n = 3"
    using n off by (simp add: loop_goes_on_def stalled_crm_def pageSize_def)
  then show ?thesis
    using res by (simp add: stalled_crm_def page_received_def upt_conv_Cons del: upt_Suc)
qed

section \<open>Properties of the store\<close>

subsection \<open>Writes touch one table\<close>








subsection \<open>The orders of writes\<close>

text \<open>\<open>orders\<close> lists exactly the rearrangements of a list.\<close>

lemma set_insert_everywhere:
  "set (insert_everywhere x ys) = {as @ x # bs | as bs. as @ bs = ys}"
proof (induction ys)
  case Nil
  show ?case by simp
next
  case (Cons y ys)
  show ?case
  proof (intro set_eqI iffI)
    fix zs assume "zs \<in> set (insert_everywhere x (y # ys))"
    then consider "zs = x # y # ys" | as bs where "zs = y # as @ x # bs" "as @ bs = ys"
      using Cons.IH by auto
    then show "zs \<in> {as @ x # bs | as bs. as @ bs = y # ys}"
    proof cases
      case 1
      then have "zs = [] @ x # (y # ys)" by simp
      then show ?thesis by blast
    next
      case 2
      then have "zs = (y # as) @ x # bs" "(y # as) @ bs = y # ys" by simp_all
      then show ?thesis by blast
    qed
  next
    fix zs assume "zs \<in> {as @ x # bs | as bs. as @ bs = y # ys}"
    then obtain as bs where zs: "zs = as @ x # bs" "as @ bs = y # ys"
      by blast
    show "zs \<in> set (insert_everywhere x (y # ys))"
    proof (cases as)
      case Nil
      then show ?thesis using zs by simp
    next
      case (Cons a as')
      then have "a = y" "as' @ bs = ys" using zs by simp_all
      then have "as' @ x # bs \<in> set (insert_everywhere x ys)"
        using Cons.IH by blast
      then show ?thesis using zs Cons \<open>a = y\<close> by simp
    qed
  qed
qed

lemma orders_all: "ys \<in> set (orders xs) \<longleftrightarrow> mset ys = mset xs"
proof (induction xs arbitrary: ys)
  case Nil
  show ?case by simp
next
  case (Cons x xs)
  show ?case
  proof
    assume "ys \<in> set (orders (x # xs))"
    then obtain zs as bs where "zs \<in> set (orders xs)" "ys = as @ x # bs" "as @ bs = zs"
      by (auto simp: set_insert_everywhere)
    then show "mset ys = mset (x # xs)"
      using Cons.IH[of zs] by auto
  next
    assume m: "mset ys = mset (x # xs)"
    then have "x \<in> set ys"
      by (metis list.set_intros(1) set_mset_mset)
    then obtain as bs where ys: "ys = as @ x # bs"
      by (auto dest: split_list)
    then have "mset (as @ bs) = mset xs"
      using m by simp
    then have "as @ bs \<in> set (orders xs)"
      using Cons.IH by blast
    then show "ys \<in> set (orders (x # xs))"
      using ys by (auto simp: set_insert_everywhere)
  qed
qed

lemma orders_of_three:
  "set (orders [a, b, c]) = {[a, b, c], [a, c, b], [b, a, c], [c, a, b], [c, b, a], [b, c, a]}"
  by auto

subsection \<open>The row a statement stores\<close>

lemma bind_or_null: "bind_param (or_null v) = (if truthy v then bind_param v else SNull)"
  by (simp add: or_null_def)

lemma truthy_stored: "truthy v \<Longrightarrow> affinity ty (bind_param v) \<noteq> SNull"
  by (cases v; cases ty) (simp_all split: option.splits)

lemma cell_given:
  "cell (zip fs (map g fs)) c = (if c \<in> set fs then g c else SNull)"
  by (simp add: cell_def map_of_zip_map)

lemma cell_with_affinity:
  "map_of cols c = Some ty \<Longrightarrow>
     cell (map (\<lambda>(c, ty). (c, affinity ty (cell given c))) cols) c = affinity ty (cell given c)"
  by (induction cols) (auto simp: cell_def)

lemma cell_with_affinity_none:
  "map_of cols c = None \<Longrightarrow>
     cell (map (\<lambda>(c, ty). (c, affinity ty (cell given c))) cols) c = SNull"
  by (induction cols) (auto simp: cell_def)

lemma cell_with_rowid:
  "cell (map (\<lambda>(c, v). (c, if c = r then SInt n else v)) new) c =
     (if c = r \<and> map_of new c \<noteq> None then SInt n else cell new c)"
  by (induction new) (auto simp: cell_def)

lemma map_of_with_affinity:
  "map_of (map (\<lambda>(c, ty). (c, f c ty)) cols) c = map_option (f c) (map_of cols c)"
  by (induction cols) auto

lemma insert_by_rowid_member: "new \<in> set (insert_by_rowid t new rs)"
  by (induction rs) simp_all

text \<open>
  The row that the statement of one record of a batch stores, column by column: what
  affinity makes of the value of the record where the column is among the fields of the
  statement and the value is truthy, the next rowid in the rowid column otherwise, and
  NULL in every other column.
\<close>

lemma run_insert_stores:
  assumes tb: "d tableName = Some tb"
    and fields: "fs \<noteq> []" "set fs \<subseteq> fst ` set (columns tb)"
    and rowid: "\<forall>ty. map_of (columns tb) (rowid_column tb) = Some ty
                  \<and> rowid_column tb \<in> set fs \<and> truthy (get_prop record (rowid_column tb))
                \<longrightarrow> (\<exists>n. affinity ty (bind_param (get_prop record (rowid_column tb))) = SInt n)"
  shows "\<exists>tb' row.
           run_insert tableName fs (map (\<lambda>field. bind_param (or_null (get_prop record field))) fs) d
             tableName = Some tb'
           \<and> row \<in> set (rows tb')
           \<and> (\<forall>c ty. map_of (columns tb) c = Some ty \<longrightarrow>
                cell row c =
                  (if c \<in> set fs \<and> truthy (get_prop record c)
                   then affinity ty (bind_param (get_prop record c))
                   else if c = rowid_column tb then SInt (next_rowid tb) else SNull))"
proof -
  define given where
    "given = zip fs (map (\<lambda>field. bind_param (or_null (get_prop record field))) fs)"
  define new where "new = map (\<lambda>(c, ty). (c, affinity ty (cell given c))) (columns tb)"
  have given: "cell given c = (if c \<in> set fs \<and> truthy (get_prop record c)
                               then bind_param (get_prop record c) else SNull)" for c
    unfolding given_def cell_given bind_or_null by simp
  have new: "cell new c = (if c \<in> set fs \<and> truthy (get_prop record c)
                           then affinity ty (bind_param (get_prop record c)) else SNull)"
    if "map_of (columns tb) c = Some ty" for c ty
  proof -
    have "cell new c = affinity ty (cell given c)"
      unfolding new_def using that by (rule cell_with_affinity)
    then show ?thesis
      by (simp add: given)
  qed
  have cols: "list_all (\<lambda>f. f \<in> set (map fst (columns tb))) fs"
    using fields(2) by (auto simp: list_all_iff)
  have run: "run_insert tableName fs (map (\<lambda>field. bind_param (or_null (get_prop record field))) fs) d =
      (case cell new (rowid_column tb) of
         SText s \<Rightarrow> d
       | SInt n \<Rightarrow> d(tableName \<mapsto> store_row tb n new)
       | SNull \<Rightarrow>
           d(tableName \<mapsto> store_row tb (next_rowid tb)
              (map (\<lambda>(c, v). (c, if c = rowid_column tb then SInt (next_rowid tb) else v)) new)))"
    using tb fields(1) cols
    by (simp add: run_insert_def insert_or_replace_def Let_def given_def new_def split: sqlval.splits)
  show ?thesis
  proof (cases "map_of (columns tb) (rowid_column tb)")
    case None
    then have null: "cell new (rowid_column tb) = SNull"
      unfolding new_def by (rule cell_with_affinity_none)
    let ?row = "map (\<lambda>(c, v). (c, if c = rowid_column tb then SInt (next_rowid tb) else v)) new"
    have "cell ?row c = (if c \<in> set fs \<and> truthy (get_prop record c)
                   then affinity ty (bind_param (get_prop record c))
                   else if c = rowid_column tb then SInt (next_rowid tb) else SNull)"
      if c: "map_of (columns tb) c = Some ty" for c ty
    proof -
      have "c \<noteq> rowid_column tb"
        using c None by auto
      then show ?thesis
        unfolding cell_with_rowid using new[OF c] by simp
    qed
    moreover have "?row \<in> set (rows (store_row tb (next_rowid tb) ?row))"
      by (simp add: store_row_def insert_by_rowid_member)
    ultimately show ?thesis
      unfolding run null by (intro exI[of _ "store_row tb (next_rowid tb) ?row"] exI[of _ ?row]) simp
  next
    case (Some ty_id)
    show ?thesis
    proof (cases "rowid_column tb \<in> set fs \<and> truthy (get_prop record (rowid_column tb))")
      case True
      with rowid Some obtain n where
        n: "affinity ty_id (bind_param (get_prop record (rowid_column tb))) = SInt n"
        by blast
      then have int: "cell new (rowid_column tb) = SInt n"
        using new[OF Some] True by simp
      have "cell new c = (if c \<in> set fs \<and> truthy (get_prop record c)
                   then affinity ty (bind_param (get_prop record c))
                   else if c = rowid_column tb then SInt (next_rowid tb) else SNull)"
        if c: "map_of (columns tb) c = Some ty" for c ty
        using new[OF c] True by auto
      moreover have "new \<in> set (rows (store_row tb n new))"
        by (simp add: store_row_def insert_by_rowid_member)
      ultimately show ?thesis
        unfolding run int by (intro exI[of _ "store_row tb n new"] exI[of _ new]) simp
    next
      case False
      then have null: "cell new (rowid_column tb) = SNull"
        using new[OF Some] by auto
      let ?row = "map (\<lambda>(c, v). (c, if c = rowid_column tb then SInt (next_rowid tb) else v)) new"
      have in_new: "map_of new (rowid_column tb) \<noteq> None"
        unfolding new_def map_of_with_affinity using Some by simp
      have "cell ?row c = (if c \<in> set fs \<and> truthy (get_prop record c)
                   then affinity ty (bind_param (get_prop record c))
                   else if c = rowid_column tb then SInt (next_rowid tb) else SNull)"
        if c: "map_of (columns tb) c = Some ty" for c ty
        unfolding cell_with_rowid using new[OF c] False in_new by auto
      moreover have "?row \<in> set (rows (store_row tb (next_rowid tb) ?row))"
        by (simp add: store_row_def insert_by_rowid_member)
      ultimately show ?thesis
        unfolding run null by (intro exI[of _ "store_row tb (next_rowid tb) ?row"] exI[of _ ?row]) simp
    qed
  qed
qed

text \<open>The statement of the last record of a batch runs on what the records before it left.\<close>

lemma insertMultipleInTable_last:
  "tableName \<noteq> [] \<Longrightarrow>
     insertMultipleInTable tableName (pre @ [record]) db =
       run_insert tableName (Object_keys (hd (pre @ [record])))
         (map (\<lambda>field. bind_param (or_null (get_prop record field)))
            (Object_keys (hd (pre @ [record]))))
         (insertMultipleInTable tableName pre db)"
  by (cases pre) (simp_all add: insertMultipleInTable_def Let_def)

subsection \<open>Claims about the store\<close>

text \<open>
  Claim C3: upserting the same \<^verbatim>\<open>(deal_id, product_id)\<close> twice leaves one row for
  that key, with the later values. The code breaks it for a key with a falsy part. The
  product id 0 is bound as NULL by \<^verbatim>\<open>record[field] || null\<close>, and NULLs never collide
  under \<^verbatim>\<open>UNIQUE (deal_id, product_id)\<close>: upserting the line item of deal 7 and
  product 0 twice, with the prices 100 and 120, leaves two rows and not one.
\<close>

theorem upsert_product_id_0_twice_leaves_two_rows:
  "getAll ''deals_products''
     (insertMultipleInTable ''deals_products'' [delivery_120]
       (insertMultipleInTable ''deals_products'' [delivery_100] startup_database)) =
   Inr [[(''id'', JNum 1), (''deal_id'', JNum 7), (''product_id'', JNull),
         (''product_name'', JStr ''Delivery''), (''price'', JNum 100), (''discount'', JNum 5)],
        [(''id'', JNum 2), (''deal_id'', JNum 7), (''product_id'', JNull),
         (''product_name'', JStr ''Delivery''), (''price'', JNum 120), (''discount'', JNum 5)]]"
  by code_simp

text \<open>With the product id 11 the later write replaces the earlier row.\<close>

lemma upsert_product_id_11_twice_leaves_one_row:
  "getAll ''deals_products''
     (insertMultipleInTable ''deals_products'' [chair_120]
       (insertMultipleInTable ''deals_products'' [chair_100] startup_database)) =
   Inr [[(''id'', JNum 2), (''deal_id'', JNum 7), (''product_id'', JNum 11),
         (''product_name'', JStr ''Chair''), (''price'', JNum 120), (''discount'', JNum 8)]]"
  by code_simp

lemmas store_defs = run_insert_def insert_or_replace_def Object_keys_def Object_values_def
  cell_def store_row_def next_rowid_def max_rowid_def rowid_of_def conflicts_def key_conflict_def
  startup_database_def createTables_def create_table_if_not_exists_def deals_table_def deal_record_def
  getAll_def js_of_row_def

text \<open>
  The deals table after the writes of the deals 1 and 2 and of the deal 1 under a new
  title, for any values of the other fields: in the three orders in which the new title
  is written after the old one, and in the three other orders. The rows hold what
  affinity makes of the bound values.
\<close>

lemma three_writes_new_title:
  assumes "ws \<in> {[w1, w2, w3], [w1, w3, w2], [w2, w1, w3]}"
    and "w1 = insertInTable ''deals'' (deal_record (JNum 1) t1 c1 p1 d1)"
    and "w2 = insertInTable ''deals'' (deal_record (JNum 2) t2 c2 p2 d2)"
    and "w3 = insertInTable ''deals'' (deal_record (JNum 1) (JStr title') c1' p1' d1')"
  shows "getAll ''deals'' (run_in_order ws startup_database) =
  Inr [[(''id'', JNum 1), (''title'', JStr title'),
        (''category_id'', js_of_sql (affinity INTEGER (bind_param c1'))),
        (''price_type'', js_of_sql (affinity INTEGER (bind_param p1'))),
        (''date_create'', js_of_sql (affinity DATE (bind_param d1')))],
       [(''id'', JNum 2), (''title'', js_of_sql (affinity TEXT (bind_param t2))),
        (''category_id'', js_of_sql (affinity INTEGER (bind_param c2))),
        (''price_type'', js_of_sql (affinity INTEGER (bind_param p2))),
        (''date_create'', js_of_sql (affinity DATE (bind_param d2)))]]"
  using assms(1) unfolding assms(2-4)
  by (elim insertE emptyE) (simp_all add: run_in_order_def store_defs insertInTable_def Let_def)

lemma three_writes_old_title:
  assumes "ws \<in> {[w3, w1, w2], [w3, w2, w1], [w2, w3, w1]}"
    and "w1 = insertInTable ''deals'' (deal_record (JNum 1) t1 c1 p1 d1)"
    and "w2 = insertInTable ''deals'' (deal_record (JNum 2) t2 c2 p2 d2)"
    and "w3 = insertInTable ''deals'' (deal_record (JNum 1) (JStr title') c1' p1' d1')"
  shows "getAll ''deals'' (run_in_order ws startup_database) =
  Inr [[(''id'', JNum 1), (''title'', js_of_sql (affinity TEXT (bind_param t1))),
        (''category_id'', js_of_sql (affinity INTEGER (bind_param c1))),
        (''price_type'', js_of_sql (affinity INTEGER (bind_param p1))),
        (''date_create'', js_of_sql (affinity DATE (bind_param d1)))],
       [(''id'', JNum 2), (''title'', js_of_sql (affinity TEXT (bind_param t2))),
        (''category_id'', js_of_sql (affinity INTEGER (bind_param c2))),
        (''price_type'', js_of_sql (affinity INTEGER (bind_param p2))),
        (''date_create'', js_of_sql (affinity DATE (bind_param d2)))]]"
  using assms(1) unfolding assms(2-4)
  by (elim insertE emptyE) (simp_all add: run_in_order_def store_defs insertInTable_def Let_def)

text \<open>
  Claim C8, as stated, fails. \<^verbatim>\<open>insertInTable\<close> returns before its write has run and
  gives the caller nothing to wait for, so the writes of the three calls, each on a
  connection of its own, can run in any order. When the write of the re-insert runs
  first, \<^verbatim>\<open>getAll("deals")\<close> finds the deal 1 under its old title.
\<close>

theorem reinsert_counterexample:
  "[insert_renamed, insert_first, insert_second]
     \<in> set (orders [insert_first, insert_second, insert_renamed])
   \<and> getAll ''deals''
        (run_in_order [insert_renamed, insert_first, insert_second] startup_database) =
      Inr [[(''id'', JNum 1), (''title'', JStr ''First''), (''category_id'', JNum 68),
            (''price_type'', JNum 616), (''date_create'', JStr ''2024-05-01'')],
           [(''id'', JNum 2), (''title'', JStr ''Second''), (''category_id'', JNum 68),
            (''price_type'', JNum 616), (''date_create'', JStr ''2024-05-02'')]]"
proof
  show "[insert_renamed, insert_first, insert_second]
     \<in> set (orders [insert_first, insert_second, insert_renamed])"
    by simp
  show "getAll ''deals''
        (run_in_order [insert_renamed, insert_first, insert_second] startup_database) =
      Inr [[(''id'', JNum 1), (''title'', JStr ''First''), (''category_id'', JNum 68),
            (''price_type'', JNum 616), (''date_create'', JStr ''2024-05-01'')],
           [(''id'', JNum 2), (''title'', JStr ''Second''), (''category_id'', JNum 68),
            (''price_type'', JNum 616), (''date_create'', JStr ''2024-05-02'')]]"
    by code_simp
qed

text \<open>
  Claim C8, amended. On the database of a fresh start, when the writes of the three
  calls run in the order of the calls, as they do when each is left to finish before the
  next call is made, \<^verbatim>\<open>getAll("deals")\<close> resolves with exactly two rows: the row of id
  1, which carries the new title, and the row of id 2. In whatever order the three
  writes run, once they have run \<^verbatim>\<open>getAll("deals")\<close> resolves with exactly two rows, of
  the ids 1 and 2, and the row of id 1 carries the title of the write for that id
  which ran last: the new title in the three orders in which the re-insert runs after
  the first insert, the old title in the three others. The other fields of the three
  deals are arbitrary.
\<close>

theorem getAll_deals_after_three_writes:
  assumes "first = insertInTable ''deals'' (deal_record (JNum 1) (JStr title) c1 p1 d1)"
    and "second = insertInTable ''deals'' (deal_record (JNum 2) t2 c2 p2 d2)"
    and "renamed = insertInTable ''deals'' (deal_record (JNum 1) (JStr title') c1' p1' d1')"
  shows "(\<exists>row1 row2.
            getAll ''deals'' (run_in_order [first, second, renamed] startup_database) =
              Inr [row1, row2]
            \<and> get_prop row1 ''id'' = JNum 1 \<and> get_prop row1 ''title'' = JStr title'
            \<and> get_prop row2 ''id'' = JNum 2)
         \<and> (\<forall>ws\<in>set (orders [first, second, renamed]). \<exists>row1 row2.
            getAll ''deals'' (run_in_order ws startup_database) = Inr [row1, row2]
            \<and> get_prop row1 ''id'' = JNum 1 \<and> get_prop row2 ''id'' = JNum 2
            \<and> get_prop row1 ''title'' =
                  (if ws \<in> {[first, second, renamed], [first, renamed, second],
                              [second, first, renamed]}
                   then JStr title' else JStr title))"
proof (intro conjI ballI)
  note new_title = three_writes_new_title[OF _ assms]
  note old_title = three_writes_old_title[OF _ assms]
  show "\<exists>row1 row2.
            getAll ''deals'' (run_in_order [first, second, renamed] startup_database) =
              Inr [row1, row2]
            \<and> get_prop row1 ''id'' = JNum 1 \<and> get_prop row1 ''title'' = JStr title'
            \<and> get_prop row2 ''id'' = JNum 2"
    by (subst new_title) (simp_all add: get_prop_def)
  fix ws assume "ws \<in> set (orders [first, second, renamed])"
  then consider
    (new) "ws \<in> {[first, second, renamed], [first, renamed, second], [second, first, renamed]}"
    | (old) "ws \<in> {[renamed, first, second], [renamed, second, first], [second, renamed, first]}"
      "ws \<notin> {[first, second, renamed], [first, renamed, second], [second, first, renamed]}"
    unfolding orders_of_three by blast
  then show "\<exists>row1 row2.
            getAll ''deals'' (run_in_order ws startup_database) = Inr [row1, row2]
            \<and> get_prop row1 ''id'' = JNum 1 \<and> get_prop row2 ''id'' = JNum 2
            \<and> get_prop row1 ''title'' =
                  (if ws \<in> {[first, second, renamed], [first, renamed, second],
                              [second, first, renamed]}
                   then JStr title' else JStr title)"
  proof cases
    case new
    show ?thesis
      unfolding new_title[OF new] using new by (simp add: get_prop_def)
  next
    case old
    show ?thesis
      unfolding old_title[OF old(1)] using old(2) by (simp add: get_prop_def)
  qed
qed

text \<open>
  The scenario with the titles First, Second and Renamed, in the order of the calls and
  with the second deal written last.
\<close>

theorem getAll_deals_after_three_writes_witness:
  "getAll ''deals''
     (run_in_order [insert_first, insert_second, insert_renamed] startup_database) =
     Inr [[(''id'', JNum 1), (''title'', JStr ''Renamed''), (''category_id'', JNum 68),
           (''price_type'', JNum 616), (''date_create'', JStr ''2024-05-01'')],
          [(''id'', JNum 2), (''title'', JStr ''Second''), (''category_id'', JNum 68),
           (''price_type'', JNum 616), (''date_create'', JStr ''2024-05-02'')]]
   \<and> (\<exists>row1 row2.
         getAll ''deals''
           (run_in_order [insert_first, insert_renamed, insert_second] startup_database) =
           Inr [row1, row2]
         \<and> get_prop row1 ''id'' = JNum 1 \<and> get_prop row2 ''id'' = JNum 2
         \<and> get_prop row1 ''title'' = JStr ''Renamed'')"
proof
  show "getAll ''deals''
     (run_in_order [insert_first, insert_second, insert_renamed] startup_database) =
     Inr [[(''id'', JNum 1), (''title'', JStr ''Renamed''), (''category_id'', JNum 68),
           (''price_type'', JNum 616), (''date_create'', JStr ''2024-05-01'')],
          [(''id'', JNum 2), (''title'', JStr ''Second''), (''category_id'', JNum 68),
           (''price_type'', JNum 616), (''date_create'', JStr ''2024-05-02'')]]"
    by code_simp
  have "[insert_first, insert_renamed, insert_second]
      \<in> set (orders [insert_first, insert_second, insert_renamed])"
    by simp
  with getAll_deals_after_three_writes
         [OF insert_first_def insert_second_def insert_renamed_def, THEN conjunct2]
  show "\<exists>row1 row2.
         getAll ''deals''
           (run_in_order [insert_first, insert_renamed, insert_second] startup_database) =
           Inr [row1, row2]
         \<and> get_prop row1 ''id'' = JNum 1 \<and> get_prop row2 ''id'' = JNum 2
         \<and> get_prop row1 ''title'' = JStr ''Renamed''"
    by fastforce
qed

text \<open>
  Claim C9, as stated, fails: in the \<^verbatim>\<open>INTEGER PRIMARY KEY\<close> column a falsy value is
  not stored as NULL. Bound as NULL there, it asks SQLite for a fresh rowid: the deal
  with the id 0 is stored under the id 1.
\<close>

theorem falsy_id_counterexample:
  "getAll ''deals'' (insertMultipleInTable ''deals'' [deal_0] startup_database) =
     Inr [[(''id'', JNum 1), (''title'', JStr ''Order''), (''category_id'', JNum 68),
           (''price_type'', JNum 616), (''date_create'', JStr ''2024-05-01'')]]"
  by code_simp

text \<open>
  Claim C9, amended. \<^verbatim>\<open>insertMultipleInTable(table, records)\<close> takes the columns of
  its statement from the first record only, and binds NULL for a field whose value is
  falsy (0, the empty string, \<^verbatim>\<open>false\<close>, \<^verbatim>\<open>null\<close>) or missing. So the row that the
  statement of a record stores, when the statement runs and its id, if it gives a
  truthy one, is a 32-bit integer, has in each column of the table: a value that is not
  NULL when the column is a key of the first record and the value of the record is
  truthy (a 32-bit integer is stored as it is in a column that is not TEXT, a string as
  it is in a TEXT column); otherwise the next free rowid in the
  \<^verbatim>\<open>INTEGER PRIMARY KEY\<close> column, and NULL in every other column. A field that only a
  later record has is dropped, and a falsy or missing value is stored as NULL everywhere
  but in the \<^verbatim>\<open>INTEGER PRIMARY KEY\<close> column. The record is taken as the last of its
  batch, and the table as the records before it leave it.
\<close>

theorem insertMultipleInTable_stores_null_except_rowid:
  assumes "tableName \<noteq> []"
    and "insertMultipleInTable tableName pre db tableName = Some tb"
    and "Object_keys (hd (pre @ [record])) \<noteq> []"
    and "set (Object_keys (hd (pre @ [record]))) \<subseteq> fst ` set (columns tb)"
    and "\<forall>ty. map_of (columns tb) (rowid_column tb) = Some ty
            \<and> rowid_column tb \<in> set (Object_keys (hd (pre @ [record])))
            \<and> truthy (get_prop record (rowid_column tb))
          \<longrightarrow> (\<exists>n. affinity ty (bind_param (get_prop record (rowid_column tb))) = SInt n
                  \<and> - 2147483648 \<le> n \<and> n \<le> 2147483647)"
  shows "\<exists>tb' row.
           insertMultipleInTable tableName (pre @ [record]) db tableName = Some tb'
           \<and> row \<in> set (rows tb')
           \<and> (\<forall>c ty. map_of (columns tb) c = Some ty \<longrightarrow>
                (if c \<in> set (Object_keys (hd (pre @ [record]))) \<and> truthy (get_prop record c)
                 then cell row c \<noteq> SNull
                      \<and> (\<forall>n. get_prop record c = JNum n \<and> - 2147483648 \<le> n \<and> n \<le> 2147483647
                                \<and> ty \<noteq> TEXT \<longrightarrow> cell row c = SInt n)
                      \<and> (\<forall>s. get_prop record c = JStr s \<and> ty = TEXT \<longrightarrow> cell row c = SText s)
                 else cell row c = (if c = rowid_column tb then SInt (next_rowid tb) else SNull)))"
proof -
  have id_ok: "\<forall>ty. map_of (columns tb) (rowid_column tb) = Some ty
            \<and> rowid_column tb \<in> set (Object_keys (hd (pre @ [record])))
            \<and> truthy (get_prop record (rowid_column tb))
          \<longrightarrow> (\<exists>n. affinity ty (bind_param (get_prop record (rowid_column tb))) = SInt n)"
    using assms(5) by blast
  from run_insert_stores
        [where d = "insertMultipleInTable tableName pre db" and tableName = tableName,
         OF assms(2-4) id_ok]
  obtain tb' row where
    stored: "insertMultipleInTable tableName (pre @ [record]) db tableName = Some tb'"
      "row \<in> set (rows tb')"
    and cells: "\<And>c ty. map_of (columns tb) c = Some ty \<Longrightarrow>
                cell row c =
                  (if c \<in> set (Object_keys (hd (pre @ [record]))) \<and> truthy (get_prop record c)
                   then affinity ty (bind_param (get_prop record c))
                   else if c = rowid_column tb then SInt (next_rowid tb) else SNull)"
    unfolding insertMultipleInTable_last[OF assms(1)] by blast
  have "if c \<in> set (Object_keys (hd (pre @ [record]))) \<and> truthy (get_prop record c)
        then cell row c \<noteq> SNull
             \<and> (\<forall>n. get_prop record c = JNum n \<and> - 2147483648 \<le> n \<and> n \<le> 2147483647
                       \<and> ty \<noteq> TEXT \<longrightarrow> cell row c = SInt n)
             \<and> (\<forall>s. get_prop record c = JStr s \<and> ty = TEXT \<longrightarrow> cell row c = SText s)
        else cell row c = (if c = rowid_column tb then SInt (next_rowid tb) else SNull)"
    if c: "map_of (columns tb) c = Some ty" for c ty
  proof (cases "c \<in> set (Object_keys (hd (pre @ [record]))) \<and> truthy (get_prop record c)")
    case False
    then show ?thesis
      using cells[OF c] by auto
  next
    case True
    then have cell: "cell row c = affinity ty (bind_param (get_prop record c))"
      using cells[OF c] by simp
    have "affinity ty (bind_param (get_prop record c)) \<noteq> SNull"
      using True by (simp add: truthy_stored)
    moreover have "affinity ty (bind_param (JNum n)) = SInt n" if "ty \<noteq> TEXT" for n
      using that by (cases ty) simp_all
    ultimately show ?thesis
      using True cell by auto
  qed
  with stored show ?thesis
    by blast
qed

text \<open>
  A second line item with the price 0 and with a \<^verbatim>\<open>discount\<close> that the first record
  lacks: it is stored under the id 2, with NULL as price and as discount.
\<close>

theorem insertMultipleInTable_stores_null_except_rowid_witness:
  "\<exists>tb' row.
     insertMultipleInTable ''deals_products'' ([item_first] @ [item_later]) startup_database
       ''deals_products'' = Some tb'
     \<and> row \<in> set (rows tb')
     \<and> cell row ''id'' = SInt 2 \<and> cell row ''deal_id'' = SInt 7 \<and> cell row ''product_id'' = SInt 4
     \<and> cell row ''product_name'' = SNull \<and> cell row ''price'' = SNull
     \<and> cell row ''discount'' = SNull"
proof -
  define tb where
    "tb = deals_products_table
       \<lparr>rows := [[(''id'', SInt 1), (''deal_id'', SInt 7), (''product_id'', SInt 3),
                  (''product_name'', SNull), (''price'', SInt 100), (''discount'', SNull)]],
        sequence := 1\<rparr>"
  have before: "insertMultipleInTable ''deals_products'' [item_first] startup_database
      ''deals_products'' = Some tb"
    unfolding tb_def by code_simp
  have cols: "columns tb = [(''id'', INTEGER), (''deal_id'', INTEGER), (''product_id'', INTEGER),
                 (''product_name'', TEXT), (''price'', FLOAT), (''discount'', FLOAT)]"
    and rowid: "rowid_column tb = ''id''"
    and fresh: "next_rowid tb = 2"
    by (simp_all add: tb_def deals_products_table_def next_rowid_def max_rowid_def rowid_of_def
          cell_def)
  have keys: "Object_keys (hd ([item_first] @ [item_later])) = [''deal_id'', ''product_id'', ''price'']"
    by (simp add: Object_keys_def item_first_def)
  have keys': "Object_keys item_first = [''deal_id'', ''product_id'', ''price'']"
    by (simp add: Object_keys_def item_first_def)
  have later: "get_prop item_later ''deal_id'' = JNum 7" "get_prop item_later ''product_id'' = JNum 4"
    "get_prop item_later ''price'' = JNum 0" "get_prop item_later ''discount'' = JNum 9"
    "get_prop item_later ''id'' = JUndefined" "get_prop item_later ''product_name'' = JUndefined"
    by (simp_all add: get_prop_def item_later_def)
  from insertMultipleInTable_stores_null_except_rowid
         [of "''deals_products''" "[item_first]" startup_database tb item_later]
  obtain tb' row where
    stored: "insertMultipleInTable ''deals_products'' ([item_first] @ [item_later]) startup_database
       ''deals_products'' = Some tb'"
      "row \<in> set (rows tb')"
    and cells: "\<And>c ty. map_of (columns tb) c = Some ty \<Longrightarrow>
                (if c \<in> set (Object_keys (hd ([item_first] @ [item_later])))
                    \<and> truthy (get_prop item_later c)
                 then cell row c \<noteq> SNull
                      \<and> (\<forall>n. get_prop item_later c = JNum n
                                \<and> - 2147483648 \<le> n \<and> n \<le> 2147483647
                                \<and> ty \<noteq> TEXT \<longrightarrow> cell row c = SInt n)
                      \<and> (\<forall>s. get_prop item_later c = JStr s \<and> ty = TEXT
                                \<longrightarrow> cell row c = SText s)
                 else cell row c = (if c = rowid_column tb then SInt (next_rowid tb) else SNull))"
    unfolding keys using before by (auto simp: cols rowid)
  have "cell row ''id'' = SInt 2" "cell row ''deal_id'' = SInt 7" "cell row ''product_id'' = SInt 4"
    "cell row ''product_name'' = SNull" "cell row ''price'' = SNull" "cell row ''discount'' = SNull"
    using cells[of "''id''" INTEGER] cells[of "''deal_id''" INTEGER]
      cells[of "''product_id''" INTEGER] cells[of "''product_name''" TEXT]
      cells[of "''price''" FLOAT] cells[of "''discount''" FLOAT]
    by (simp_all add: cols rowid fresh keys' later)
  with stored show ?thesis
    by blast
qed

section \<open>Properties of the handlers\<close>


text \<open>The loop over the stored deals stops at the first deal whose line items are \<^verbatim>\<open>null\<close>.\<close>

lemma collect_productrows_null:
  "\<exists>deal\<in>set deals. getDealProductRows dealsService (get_prop deal ''id'') = Resolved None \<Longrightarrow>
     \<exists>error. collect_productrows dealsService deals records = Inl error"
proof (induction deals arbitrary: records)
  case Nil
  then show ?case
    by simp
next
  case (Cons deal deals)
  show ?case
  proof (cases "getDealProductRows dealsService (get_prop deal ''id'')")
    case (Rejected e)
    then show ?thesis
      by simp
  next
    case (Resolved r)
    show ?thesis
    proof (cases r)
      case None
      then show ?thesis
        using Resolved by simp
    next
      case (Some productrows)
      then have "\<exists>d\<in>set deals. getDealProductRows dealsService (get_prop d ''id'') = Resolved None"
        using Cons.prems Resolved by auto
      from Cons.IH[OF this] show ?thesis
        using Resolved Some by simp
    qed
  qed
qed

text \<open>
  The check of the handler lets a deal pass when its category or its price type is the
  accepted one: it throws only when both are off.
\<close>

lemma add_deal_handler_passes_on_one_match:
  assumes "decryptText_env env = Inr link"
    and "id' = (if \<not> truthy (query_ID req) then body_data_FIELDS_ID req else query_ID req)"
    and "truthy id'"
    and "getDealById (Bitrix env link) id' = Resolved (Some deal)"
    and "Number toNumber (get_prop deal ''category_id'') = Integer 68
         \<or> Number toNumber (get_prop deal ''price_type'') = Integer 616"
    and "getDealProductRows (Bitrix env link) (get_prop deal ''id'') = Resolved (Some productrows)"
  shows "add_deal_handler toNumber env req =
           (Status200_deal deal,
            [insertInTable ''deals'' deal,
             insertMultipleInTable ''deal_products'' (map (line_item deal) productrows)])"
  using assms(1,3-6) unfolding add_deal_handler_def Let_def assms(2)[symmetric] by auto

text \<open>What \<^verbatim>\<open>getDealById\<close> makes of the envelope: a deal without a single field.\<close>

lemma getDealById_envelope:
  "deals_get bx id' = Inr (rest_envelope deal timings) \<Longrightarrow>
     getDealById bx id' =
       Resolved (Some (deal_record JUndefined JUndefined JUndefined JUndefined JUndefined))"
  by (simp add: getDealById_def rest_envelope_def get_prop_def deal_record_def)


lemma two_deals_stored:
  "getAll ''deals'' two_deals_database =
     Inr [deal_record (JNum 1) (JStr ''First'') (JNum 68) (JNum 616) (JStr ''2024-05-01''),
          deal_record (JNum 2) (JStr ''Second'') (JNum 68) (JNum 616) (JStr ''2024-05-02'')]"
  by code_simp

subsection \<open>Claims about the handlers\<close>

text \<open>
  Claim C1. A remote deal whose category is not 68 or whose price type is not 616 is
  never written by \<^verbatim>\<open>add_deal_handler\<close>, and the call ends with an error. The handler
  is given what \<^verbatim>\<open>bx.deals.get\<close> of the package resolves with, the envelope that holds
  the deal under \<^verbatim>\<open>result\<close>. \<^verbatim>\<open>getDealById\<close> reads the fields of the deal off the
  envelope itself, so the deal it resolves with has \<^verbatim>\<open>undefined\<close> in every field;
  \<^verbatim>\<open>Number(undefined)\<close> is \<^verbatim>\<open>NaN\<close>, both comparisons of the check hold and the check
  throws. Hence for every deal that is fetched, whatever its category and its price
  type, the handler answers with status 500 and queues no write; and with a client
  that resolves fetch-by-id with envelopes only, no request makes the handler queue a
  write or answer with success.
\<close>

theorem add_deal_handler_rejects_fetched_deal:
  "(decryptText_env env = Inr link
      \<and> id' = (if \<not> truthy (query_ID req) then body_data_FIELDS_ID req else query_ID req)
      \<and> truthy id'
      \<and> deals_get (Bitrix env link) id' = Inr (rest_envelope deal timings)
     \<longrightarrow> add_deal_handler toNumber env req = (Status500, []))
   \<and> ((\<forall>link id' answer. deals_get (Bitrix env link) id' = Inr answer
          \<longrightarrow> (\<exists>deal timings. answer = rest_envelope deal timings))
     \<longrightarrow> snd (add_deal_handler toNumber env req) = []
         \<and> (\<forall>deal. fst (add_deal_handler toNumber env req) \<noteq> Status200_deal deal))"
proof (intro conjI impI; (elim conjE)?)
  assume "decryptText_env env = Inr link"
    "id' = (if \<not> truthy (query_ID req) then body_data_FIELDS_ID req else query_ID req)"
    "truthy id'"
    "deals_get (Bitrix env link) id' = Inr (rest_envelope deal timings)"
  then show "add_deal_handler toNumber env req = (Status500, [])"
    by (simp add: add_deal_handler_def getDealById_envelope[of _ _ deal timings] deal_record_def
          get_prop_def)
next
  assume real: "\<forall>link id' answer. deals_get (Bitrix env link) id' = Inr answer
          \<longrightarrow> (\<exists>deal timings. answer = rest_envelope deal timings)"
  define id' where
    "id' = (if \<not> truthy (query_ID req) then body_data_FIELDS_ID req else query_ID req)"
  have "\<exists>r. add_deal_handler toNumber env req = (r, []) \<and> (\<forall>deal. r \<noteq> Status200_deal deal)"
  proof (cases "truthy id'")
    case False
    then show ?thesis
      by (simp add: add_deal_handler_def id'_def[symmetric])
  next
    case id_given: True
    show ?thesis
    proof (cases "decryptText_env env")
      case (Inl error)
      then show ?thesis
        using id_given by (simp add: add_deal_handler_def id'_def[symmetric])
    next
      case link: (Inr link)
      show ?thesis
      proof (cases "deals_get (Bitrix env link) id'")
        case (Inl error)
        then show ?thesis
          using id_given link
          by (simp add: add_deal_handler_def id'_def[symmetric] getDealById_def)
      next
        case (Inr answer)
        with real obtain deal timings where "answer = rest_envelope deal timings"
          by blast
        with Inr have "getDealById (Bitrix env link) id' =
            Resolved (Some (deal_record JUndefined JUndefined JUndefined JUndefined JUndefined))"
          by (simp add: getDealById_envelope)
        then show ?thesis
          using id_given link
          by (simp add: add_deal_handler_def id'_def[symmetric] deal_record_def get_prop_def)
      qed
    qed
  qed
  then show "snd (add_deal_handler toNumber env req) = []"
    and "\<forall>deal. fst (add_deal_handler toNumber env req) \<noteq> Status200_deal deal"
    by auto
qed

text \<open>
  The deal 5 of category 68 and price type 1, asked for by the query and by the body of
  the request, and any request to the client of the package.
\<close>

theorem add_deal_handler_rejects_fetched_deal_witness:
  "\<forall>toNumber req.
     add_deal_handler toNumber (environment_of (client_of_deal remote_deal_5_price_type_1))
       request_5 = (Status500, [])
     \<and> add_deal_handler toNumber (environment_of (client_of_deal remote_deal_5_price_type_1))
         request_body_5 = (Status500, [])
     \<and> snd (add_deal_handler toNumber (environment_of (client_of_deal remote_deal_5_accepted))
              req) = []"
proof (intro allI)
  fix toNumber req
  let ?env = "environment_of (client_of_deal remote_deal_5_price_type_1)"
  let ?link = "''https://example.bitrix/webhook''"
  have link: "decryptText_env ?env = Inr ?link"
    and get: "deals_get (Bitrix ?env ?link) (JStr ''5'') =
      Inr (rest_envelope remote_deal_5_price_type_1 [(''start'', JNum 0), (''finish'', JNum 1)])"
    by (simp_all add: environment_of_def client_of_deal_def)
  have envelopes: "\<forall>link id' answer.
      deals_get (Bitrix (environment_of (client_of_deal remote_deal_5_accepted)) link) id' =
        Inr answer
      \<longrightarrow> (\<exists>deal timings. answer = rest_envelope deal timings)"
    by (auto simp: environment_of_def client_of_deal_def)
  have "add_deal_handler toNumber ?env request_5 = (Status500, [])"
    using add_deal_handler_rejects_fetched_deal
            [of ?env ?link "JStr ''5''" request_5 remote_deal_5_price_type_1
                "[(''start'', JNum 0), (''finish'', JNum 1)]" toNumber, THEN conjunct1]
          link get
    by (simp add: request_5_def)
  moreover have "add_deal_handler toNumber ?env request_body_5 = (Status500, [])"
    using add_deal_handler_rejects_fetched_deal
            [of ?env ?link "JStr ''5''" request_body_5 remote_deal_5_price_type_1
                "[(''start'', JNum 0), (''finish'', JNum 1)]" toNumber, THEN conjunct1]
          link get
    by (simp add: request_body_5_def)
  moreover have "snd (add_deal_handler toNumber
      (environment_of (client_of_deal remote_deal_5_accepted)) req) = []"
    using add_deal_handler_rejects_fetched_deal
            [where env = "environment_of (client_of_deal remote_deal_5_accepted)"
               and req = req and toNumber = toNumber, THEN conjunct2]
          envelopes
    by blast
  ultimately show "add_deal_handler toNumber ?env request_5 = (Status500, [])
     \<and> add_deal_handler toNumber ?env request_body_5 = (Status500, [])
     \<and> snd (add_deal_handler toNumber (environment_of (client_of_deal remote_deal_5_accepted))
              req) = []"
    by (intro conjI)
qed



text \<open>
  Claim C5, as stated, fails. With the deals 1 and 2 in the store and a client that has
  the line items of deal 1 and times out on deal 2, the line-item sync does not go on
  with the line items it has: it answers with status 500 and queues no write.
\<close>

theorem line_item_sync_counterexample:
  "get_deals_product_rows_from_bx_insert_in_db
     (environment_of crm_line_items_of_1) two_deals_database = (Status500, [])"
  by (simp add: get_deals_product_rows_from_bx_insert_in_db_def environment_of_def two_deals_stored
        crm_line_items_of_1_def getDealProductRows_def deal_record_def get_prop_def line_item_def)

text \<open>
  Claim C5, amended. A sync call does not go on after a failed remote fetch. When the
  client resolves \<^verbatim>\<open>null\<close>, the call ends with the internal-server-error answer: the
  list sync and the line-item sync queue no write (one failed line-item fetch discards
  the line items of every deal), and the single-deal add, for an id given in the query
  or in the body of the request, gives the same answer both when fetch-by-id is
  \<^verbatim>\<open>null\<close>, with no write queued, and when the line-item fetch is \<^verbatim>\<open>null\<close>. Only a
  result that is not \<^verbatim>\<open>null\<close> lets the call go on: for a list of deals that is not
  empty the write is queued and the answer is success.
\<close>

theorem sync_ends_with_error_on_null:
  "(decryptText_env env = Inr link \<and>
      getDealsByFilter (Bitrix env link)
        [(''UF_CRM_1710140074001'', JNum 616), (''CATEGORY_ID'', JNum 68)] =
        Some (requests, Resolved None)
      \<longrightarrow> get_deals_from_bx_insert_in_db env = Some (Status500, []))
   \<and> (decryptText_env env = Inr link \<and>
      getDealsByFilter (Bitrix env link)
        [(''UF_CRM_1710140074001'', JNum 616), (''CATEGORY_ID'', JNum 68)] =
        Some (requests, Resolved (Some found)) \<and> found \<noteq> []
      \<longrightarrow> get_deals_from_bx_insert_in_db env =
            Some (Status200_deals (map deal_of_remote found),
                  [insertMultipleInTable ''deals'' (map deal_of_remote found)]))
   \<and> (decryptText_env env = Inr link \<and> getAll ''deals'' db = Inr deals \<and>
      (\<exists>deal\<in>set deals.
         getDealProductRows (Bitrix env link) (get_prop deal ''id'') = Resolved None)
      \<longrightarrow> get_deals_product_rows_from_bx_insert_in_db env db = (Status500, []))
   \<and> (decryptText_env env = Inr link \<and>
      id' = (if \<not> truthy (query_ID req) then body_data_FIELDS_ID req else query_ID req) \<and>
      truthy id' \<and>
      getDealById (Bitrix env link) id' = Resolved None
      \<longrightarrow> add_deal_handler toNumber env req = (Status500, []))
   \<and> (decryptText_env env = Inr link \<and>
      id' = (if \<not> truthy (query_ID req) then body_data_FIELDS_ID req else query_ID req) \<and>
      truthy id' \<and>
      getDealById (Bitrix env link) id' = Resolved (Some deal) \<and>
      getDealProductRows (Bitrix env link) (get_prop deal ''id'') = Resolved None
      \<longrightarrow> fst (add_deal_handler toNumber env req) = Status500)"
proof (intro conjI impI; elim conjE)
  assume "decryptText_env env = Inr link"
    "getDealsByFilter (Bitrix env link)
        [(''UF_CRM_1710140074001'', JNum 616), (''CATEGORY_ID'', JNum 68)] =
        Some (requests, Resolved None)"
  then show "get_deals_from_bx_insert_in_db env = Some (Status500, [])"
    by (simp add: get_deals_from_bx_insert_in_db_def)
next
  assume "decryptText_env env = Inr link"
    "getDealsByFilter (Bitrix env link)
        [(''UF_CRM_1710140074001'', JNum 616), (''CATEGORY_ID'', JNum 68)] =
        Some (requests, Resolved (Some found))"
    "found \<noteq> []"
  then show "get_deals_from_bx_insert_in_db env =
            Some (Status200_deals (map deal_of_remote found),
                  [insertMultipleInTable ''deals'' (map deal_of_remote found)])"
    by (simp add: get_deals_from_bx_insert_in_db_def truthy_array_def Let_def)
next
  assume "decryptText_env env = Inr link" "getAll ''deals'' db = Inr deals"
    "\<exists>deal\<in>set deals.
         getDealProductRows (Bitrix env link) (get_prop deal ''id'') = Resolved None"
  then show "get_deals_product_rows_from_bx_insert_in_db env db = (Status500, [])"
    using collect_productrows_null[of deals "Bitrix env link" "[]"]
    by (auto simp: get_deals_product_rows_from_bx_insert_in_db_def)
next
  assume "decryptText_env env = Inr link"
    "id' = (if \<not> truthy (query_ID req) then body_data_FIELDS_ID req else query_ID req)"
    "truthy id'"
    "getDealById (Bitrix env link) id' = Resolved None"
  then show "add_deal_handler toNumber env req = (Status500, [])"
    by (simp add: add_deal_handler_def)
next
  assume a: "decryptText_env env = Inr link"
    "id' = (if \<not> truthy (query_ID req) then body_data_FIELDS_ID req else query_ID req)"
    "truthy id'"
    "getDealById (Bitrix env link) id' = Resolved (Some deal)"
    "getDealProductRows (Bitrix env link) (get_prop deal ''id'') = Resolved None"
  show "fst (add_deal_handler toNumber env req) = Status500"
  proof (cases "Number toNumber (get_prop deal ''category_id'') \<noteq> Integer 68
                \<and> Number toNumber (get_prop deal ''price_type'') \<noteq> Integer 616")
    case True
    then show ?thesis
      using a(1,3,4) unfolding add_deal_handler_def Let_def a(2)[symmetric] by simp
  next
    case False
    then show ?thesis
      using a(1,3,4,5) unfolding add_deal_handler_def Let_def a(2)[symmetric] by auto
  qed
qed

text \<open>
  A client that times out, one that lists one deal, one that times out on the line items
  of deal 2, and one that times out on the line items of the deal just fetched.
\<close>

theorem sync_ends_with_error_on_null_witness:
  "\<forall>toNumber.
   get_deals_from_bx_insert_in_db (environment_of timeout_crm) = Some (Status500, [])
   \<and> get_deals_from_bx_insert_in_db (environment_of (client_of_crm [remote_deal_3])) =
     Some (Status200_deals [deal_of_remote remote_deal_3],
           [insertMultipleInTable ''deals'' [deal_of_remote remote_deal_3]])
   \<and> get_deals_product_rows_from_bx_insert_in_db (environment_of crm_line_items_of_1)
       two_deals_database = (Status500, [])
   \<and> add_deal_handler toNumber (environment_of timeout_crm) request_5 = (Status500, [])
   \<and> add_deal_handler toNumber (environment_of timeout_crm) request_body_5 = (Status500, [])
   \<and> fst (add_deal_handler toNumber (environment_of crm_line_items_timeout) request_body_5) =
       Status500"
proof
  fix toNumber
  let ?link = "''https://example.bitrix/webhook''"
  let ?filter = "[(''UF_CRM_1710140074001'', JNum 616), (''CATEGORY_ID'', JNum 68)]"
  let ?stored = "[deal_record (JNum 1) (JStr ''First'') (JNum 68) (JNum 616) (JStr ''2024-05-01''),
                  deal_record (JNum 2) (JStr ''Second'') (JNum 68) (JNum 616) (JStr ''2024-05-02'')]"
  have link: "decryptText_env (environment_of crm) = Inr ?link"
    and crm: "Bitrix (environment_of crm) ?link = crm" for crm
    by (simp_all add: environment_of_def)
  have "list_loop timeout_crm ?filter 0 [] [] = Some ([0, 50], Inl (Error ''ETIMEDOUT''))"
    by (subst list_loop.simps, subst list_loop.simps) (simp add: timeout_crm_def pageSize_def)
  then have list_null: "getDealsByFilter (Bitrix (environment_of timeout_crm) ?link) ?filter =
      Some ([0, 50], Resolved None)"
    by (simp add: getDealsByFilter_def crm)
  have "list_loop (client_of_crm [remote_deal_3]) ?filter 0 [] [] = Some ([0], Inr [remote_deal_3])"
    by (subst list_loop.simps) (simp add: client_of_crm_def pageSize_def)
  then have list_one:
    "getDealsByFilter (Bitrix (environment_of (client_of_crm [remote_deal_3])) ?link)
      ?filter = Some ([0], Resolved (Some [remote_deal_3]))"
    by (simp add: getDealsByFilter_def crm)
  have items_null: "\<exists>deal\<in>set ?stored.
      getDealProductRows (Bitrix (environment_of crm_line_items_of_1) ?link)
        (get_prop deal ''id'') = Resolved None"
    by (simp add: crm getDealProductRows_def crm_line_items_of_1_def deal_record_def get_prop_def)
  have id_query: "JStr ''5'' =
      (if \<not> truthy (query_ID request_5) then body_data_FIELDS_ID request_5 else query_ID request_5)"
    and id_body: "JStr ''5'' =
      (if \<not> truthy (query_ID request_body_5) then body_data_FIELDS_ID request_body_5
       else query_ID request_body_5)"
    and id_given: "truthy (JStr ''5'')"
    by (simp_all add: request_5_def request_body_5_def)
  have deal_null: "getDealById (Bitrix (environment_of timeout_crm) ?link) (JStr ''5'') =
      Resolved None"
    by (simp add: crm getDealById_def timeout_crm_def)
  have deal: "getDealById (Bitrix (environment_of crm_line_items_timeout) ?link) (JStr ''5'') =
      Resolved (Some deal_5)"
    by (simp add: crm getDealById_def crm_line_items_timeout_def deal_5_def deal_record_def
          get_prop_def)
  have no_items: "getDealProductRows (Bitrix (environment_of crm_line_items_timeout) ?link)
      (get_prop deal_5 ''id'') = Resolved None"
    by (simp add: crm getDealProductRows_def crm_line_items_timeout_def)
  have "get_deals_from_bx_insert_in_db (environment_of timeout_crm) = Some (Status500, [])"
    using sync_ends_with_error_on_null
            [where env = "environment_of timeout_crm" and link = ?link
               and requests = "[0, 50]", THEN conjunct1]
          link list_null
    by blast
  moreover have "get_deals_from_bx_insert_in_db
       (environment_of (client_of_crm [remote_deal_3])) =
     Some (Status200_deals [deal_of_remote remote_deal_3],
           [insertMultipleInTable ''deals'' [deal_of_remote remote_deal_3]])"
    using sync_ends_with_error_on_null
            [where env = "environment_of (client_of_crm [remote_deal_3])" and link = ?link
               and requests = "[0]" and found = "[remote_deal_3]",
             THEN conjunct2, THEN conjunct1]
          link list_one
    by simp
  moreover have "get_deals_product_rows_from_bx_insert_in_db
       (environment_of crm_line_items_of_1) two_deals_database = (Status500, [])"
    using sync_ends_with_error_on_null
            [where env = "environment_of crm_line_items_of_1" and link = ?link
               and deals = ?stored and db = two_deals_database,
             THEN conjunct2, THEN conjunct2, THEN conjunct1]
          link two_deals_stored items_null
    by blast
  moreover have "add_deal_handler toNumber (environment_of timeout_crm) request_5 = (Status500, [])"
    using sync_ends_with_error_on_null
            [where env = "environment_of timeout_crm" and link = ?link and req = request_5
               and id' = "JStr ''5''",
             THEN conjunct2, THEN conjunct2, THEN conjunct2, THEN conjunct1]
          link id_query id_given deal_null
    by blast
  moreover have "add_deal_handler toNumber (environment_of timeout_crm) request_body_5 =
      (Status500, [])"
    using sync_ends_with_error_on_null
            [where env = "environment_of timeout_crm" and link = ?link
               and req = request_body_5 and id' = "JStr ''5''",
             THEN conjunct2, THEN conjunct2, THEN conjunct2, THEN conjunct1]
          link id_body id_given deal_null
    by blast
  moreover have "fst (add_deal_handler toNumber (environment_of crm_line_items_timeout)
       request_body_5) = Status500"
    using sync_ends_with_error_on_null
            [where env = "environment_of crm_line_items_timeout" and link = ?link
               and req = request_body_5 and id' = "JStr ''5''" and deal = deal_5,
             THEN conjunct2, THEN conjunct2, THEN conjunct2, THEN conjunct2]
          link id_body id_given deal no_items
    by blast
  ultimately show "get_deals_from_bx_insert_in_db (environment_of timeout_crm) =
       Some (Status500, [])
   \<and> get_deals_from_bx_insert_in_db (environment_of (client_of_crm [remote_deal_3])) =
     Some (Status200_deals [deal_of_remote remote_deal_3],
           [insertMultipleInTable ''deals'' [deal_of_remote remote_deal_3]])
   \<and> get_deals_product_rows_from_bx_insert_in_db (environment_of crm_line_items_of_1)
       two_deals_database = (Status500, [])
   \<and> add_deal_handler toNumber (environment_of timeout_crm) request_5 = (Status500, [])
   \<and> add_deal_handler toNumber (environment_of timeout_crm) request_body_5 = (Status500, [])
   \<and> fst (add_deal_handler toNumber (environment_of crm_line_items_timeout) request_body_5) =
       Status500"
    by (intro conjI)
qed

end
